theory Spec2Isabelle
  imports Complex_Main "HOL-Library.AList"
begin

section \<open>Values, dictionaries and the input document\<close>

text \<open>
  Text is a \<^typ>\<open>string\<close>; the characters are read as ASCII code points.
  The case conversions and the character classes \<open>\w\<close>, \<open>\d\<close>, \<open>\s\<close> below are
  those of Python on ASCII text; a statement about every text names that scope
  (\<open>is_ascii\<close>, or a course token, which is ASCII by its shape).
  A Python dictionary whose iteration order matters is an association list in
  insertion order; \<open>d.get(k)\<close> is \<^term>\<open>map_of d k\<close>.
  The attribute values stored in the graph are strings, integers (the credit
  count) and lists of strings (the research areas).
\<close>

datatype val = VStr string | VInt int | VList "string list"

type_synonym attrs = "(string \<times> val) list"

text \<open>\<open>old.update(new)\<close>: keys already present keep their position.\<close>

definition dict_update :: "attrs \<Rightarrow> attrs \<Rightarrow> attrs" where
  "dict_update old new = foldl (\<lambda>d (k, v). AList.update k v d) old new"

text \<open>
  The input document (the JSON file): four arrays. A field read with
  \<open>entry['k']\<close> is a mandatory field of the record, a field read with
  \<open>entry.get('k', default)\<close> or tested with \<open>'k' in entry\<close> is optional.
\<close>

record department_entry =
  d_id :: string
  d_name :: string
  d_code :: string
  d_faculty_head :: "string option"

record faculty_entry =
  f_id :: string
  f_name :: string
  f_title :: string
  f_department :: string
  f_email :: "string option"
  f_research_areas :: "string list option"

record course_entry =
  c_id :: string
  c_code :: string
  c_name :: string
  c_credits :: int
  c_level :: string
  c_department :: string
  c_description :: "string option"
  c_taught_by :: "string list option"

record prereq_entry =
  p_course :: string
  p_requires :: string

record document =
  departments :: "department_entry list"
  faculty :: "faculty_entry list"
  courses :: "course_entry list"
  prerequisites :: "prereq_entry list"

section \<open>The directed graph (networkx.DiGraph as the repository uses it)\<close>

text \<open>
  The repository stores its data in a \<open>networkx.DiGraph\<close> and uses five of its
  operations: \<open>add_node\<close>, \<open>add_edge\<close>, membership of a node, and the edge views
  \<open>out_edges(n, data=True)\<close> and \<open>in_edges(n, data=True)\<close>. They are modelled
  here as the library defines them.
  The graph keeps a dictionary of nodes (id to attribute dictionary) and, for
  every ordered pair of nodes, at most one edge with its data. All edges of the
  repository carry exactly the key \<open>relation\<close>, so the edge data is the relation
  tag. Both lists are in insertion order; updating an existing key keeps its
  position, which gives the iteration order of \<open>out_edges\<close> and \<open>in_edges\<close>.
\<close>

datatype relation = belongs_to | teaches | prerequisite | heads

type_synonym edge = "(string \<times> string) \<times> relation"

record graph =
  nodes :: "(string \<times> attrs) list"
  edges :: "edge list"

definition empty_graph :: graph where
  "empty_graph = \<lparr>nodes = [], edges = []\<rparr>"

definition has_node :: "graph \<Rightarrow> string \<Rightarrow> bool" where
  "has_node g n = (map_of (nodes g) n \<noteq> None)"

text \<open>\<open>add_node(n, **attr)\<close>: a new node is appended, an existing node has its
  attribute dictionary updated.\<close>

definition add_node :: "graph \<Rightarrow> string \<Rightarrow> attrs \<Rightarrow> graph" where
  "add_node g n a =
     (case map_of (nodes g) n of
        None \<Rightarrow> g\<lparr>nodes := nodes g @ [(n, a)]\<rparr>
      | Some old \<Rightarrow> g\<lparr>nodes := AList.update n (dict_update old a) (nodes g)\<rparr>)"

text \<open>\<open>add_edge(u, v, relation=r)\<close>: missing endpoints are created with no
  attributes; the data of an existing edge \<open>(u, v)\<close> is overwritten.\<close>

definition add_edge :: "graph \<Rightarrow> string \<Rightarrow> string \<Rightarrow> relation \<Rightarrow> graph" where
  "add_edge g u v r =
     (let g1 = (if has_node g u then g else g\<lparr>nodes := nodes g @ [(u, [])]\<rparr>);
          g2 = (if has_node g1 v then g1 else g1\<lparr>nodes := nodes g1 @ [(v, [])]\<rparr>)
      in g2\<lparr>edges := AList.update (u, v) r (edges g2)\<rparr>)"

text \<open>
  \<open>nbunch_iter\<close>: an argument that is a node stands for itself; any other
  argument is iterated as a container, and a string iterates over its
  one-character substrings, of which those that are nodes are kept. The edge
  views put the result through \<open>dict.fromkeys\<close>, which keeps the first
  occurrence of each node.
\<close>

fun fromkeys :: "'a list \<Rightarrow> 'a list" where
  "fromkeys [] = []"
| "fromkeys (x # xs) = x # filter (\<lambda>y. y \<noteq> x) (fromkeys xs)"

definition nbunch_iter :: "graph \<Rightarrow> string \<Rightarrow> string list" where
  "nbunch_iter g n =
     (if has_node g n then [n] else filter (has_node g) (map (\<lambda>c. [c]) n))"

definition out_edges :: "graph \<Rightarrow> string \<Rightarrow> edge list" where
  "out_edges g n =
     concat (map (\<lambda>u. filter (\<lambda>e. fst (fst e) = u) (edges g)) (fromkeys (nbunch_iter g n)))"

definition in_edges :: "graph \<Rightarrow> string \<Rightarrow> edge list" where
  "in_edges g n =
     concat (map (\<lambda>v. filter (\<lambda>e. snd (fst e) = v) (edges g)) (fromkeys (nbunch_iter g n)))"

section \<open>KnowledgeGraph\<close>

subsection \<open>Loading\<close>

definition load_department :: "graph \<Rightarrow> department_entry \<Rightarrow> graph" where
  "load_department g dept =
     add_node g (d_id dept)
       [(''type'', VStr ''department''), (''name'', VStr (d_name dept)),
        (''code'', VStr (d_code dept))]"

definition load_faculty :: "graph \<Rightarrow> faculty_entry \<Rightarrow> graph" where
  "load_faculty g fac =
     add_edge
       (add_node g (f_id fac)
          [(''type'', VStr ''faculty''), (''name'', VStr (f_name fac)),
           (''title'', VStr (f_title fac)),
           (''email'', VStr (case f_email fac of None \<Rightarrow> '''' | Some e \<Rightarrow> e)),
           (''research_areas'',
              VList (case f_research_areas fac of None \<Rightarrow> [] | Some ra \<Rightarrow> ra))])
       (f_id fac) (f_department fac) belongs_to"

definition load_head :: "graph \<Rightarrow> department_entry \<Rightarrow> graph" where
  "load_head g dept =
     (case d_faculty_head dept of
        None \<Rightarrow> g
      | Some h \<Rightarrow> add_edge g h (d_id dept) heads)"

definition load_course :: "graph \<Rightarrow> course_entry \<Rightarrow> graph" where
  "load_course g course =
     foldl (\<lambda>g' instructor_id. add_edge g' instructor_id (c_id course) teaches)
       (add_edge
          (add_node g (c_id course)
             [(''type'', VStr ''course''), (''code'', VStr (c_code course)),
              (''name'', VStr (c_name course)), (''credits'', VInt (c_credits course)),
              (''level'', VStr (c_level course)),
              (''description'',
                 VStr (case c_description course of None \<Rightarrow> '''' | Some d \<Rightarrow> d))])
          (c_id course) (c_department course) belongs_to)
       (case c_taught_by course of None \<Rightarrow> [] | Some ts \<Rightarrow> ts)"

definition load_prereq :: "graph \<Rightarrow> prereq_entry \<Rightarrow> graph" where
  "load_prereq g prereq = add_edge g (p_course prereq) (p_requires prereq) prerequisite"

definition build_graph :: "document \<Rightarrow> graph" where
  "build_graph doc =
     foldl load_prereq
       (foldl load_course
          (foldl load_head
             (foldl load_faculty
                (foldl load_department empty_graph (departments doc))
                (faculty doc))
             (departments doc))
          (courses doc))
       (prerequisites doc)"

subsection \<open>Node queries\<close>

text \<open>\<open>get_node\<close> returns \<open>{'id': node_id, **attrs}\<close>; no attribute dictionary
  of the graph has the key \<open>id\<close>, so the result is the id with the attributes.\<close>

record node =
  nid :: string
  nattrs :: attrs

definition get_node :: "graph \<Rightarrow> string \<Rightarrow> node option" where
  "get_node g n =
     (case map_of (nodes g) n of
        None \<Rightarrow> None
      | Some a \<Rightarrow> Some \<lparr>nid = n, nattrs = a\<rparr>)"

definition get_all_nodes_by_type :: "graph \<Rightarrow> string \<Rightarrow> node list" where
  "get_all_nodes_by_type g node_type =
     map (\<lambda>(n, a). \<lparr>nid = n, nattrs = a\<rparr>)
       (filter (\<lambda>(n, a). map_of a ''type'' = Some (VStr node_type)) (nodes g))"

definition get_all_courses :: "graph \<Rightarrow> node list" where
  "get_all_courses g = get_all_nodes_by_type g ''course''"

subsection \<open>Relationship queries\<close>

text \<open>A node dictionary is never empty, so \<open>if prereq_node:\<close> tests that the
  node exists.\<close>

definition get_prerequisites :: "graph \<Rightarrow> string \<Rightarrow> node list" where
  "get_prerequisites g course_id =
     List.map_filter
       (\<lambda>e. if snd e = prerequisite then get_node g (snd (fst e)) else None)
       (out_edges g course_id)"

definition get_courses_requiring :: "graph \<Rightarrow> string \<Rightarrow> node list" where
  "get_courses_requiring g course_id =
     List.map_filter
       (\<lambda>e. if snd e = prerequisite then get_node g (fst (fst e)) else None)
       (in_edges g course_id)"

text \<open>The first matching edge decides: \<open>return self.get_node(target)\<close>.\<close>

definition get_faculty_department :: "graph \<Rightarrow> string \<Rightarrow> node option" where
  "get_faculty_department g faculty_id =
     (case filter (\<lambda>e. snd e = belongs_to) (out_edges g faculty_id) of
        [] \<Rightarrow> None
      | e # _ \<Rightarrow> get_node g (snd (fst e)))"

definition get_course_department :: "graph \<Rightarrow> string \<Rightarrow> node option" where
  "get_course_department g course_id =
     (case filter (\<lambda>e. snd e = belongs_to) (out_edges g course_id) of
        [] \<Rightarrow> None
      | e # _ \<Rightarrow> get_node g (snd (fst e)))"

definition get_faculty_by_department :: "graph \<Rightarrow> string \<Rightarrow> node list" where
  "get_faculty_by_department g dept_id =
     List.map_filter
       (\<lambda>e. if snd e = belongs_to
             then (case get_node g (fst (fst e)) of
                     None \<Rightarrow> None
                   | Some n \<Rightarrow>
                       if map_of (nattrs n) ''type'' = Some (VStr ''faculty'')
                       then Some n else None)
             else None)
       (in_edges g dept_id)"

definition can_take_course :: "graph \<Rightarrow> string \<Rightarrow> string list \<Rightarrow> bool \<times> string list" where
  "can_take_course g course_id completed_courses =
     (let prereqs = get_prerequisites g course_id;
          missing = filter (\<lambda>i. i \<notin> set completed_courses) (map nid prereqs)
      in (length missing = 0, missing))"

subsection \<open>Transitive prerequisites\<close>

text \<open>
  The source keeps \<open>all_prereqs\<close> as a Python set, whose iteration order is
  unspecified; the model keeps its elements in a list without duplicates (in
  discovery order) and every statement below is about the set of that list.
  The \<open>while queue:\<close> loop is a partial function: not returning is \<open>None\<close>.
\<close>

definition visit_edge :: "string list \<times> string list \<Rightarrow> edge \<Rightarrow> string list \<times> string list" where
  "visit_edge st e =
     (if snd e = prerequisite \<and> snd (fst e) \<notin> set (fst st)
      then (fst st @ [snd (fst e)], snd st @ [snd (fst e)])
      else st)"

partial_function (option) bfs_loop :: "graph \<Rightarrow> string list \<Rightarrow> string list \<Rightarrow> string list option" where
  "bfs_loop g all_prereqs queue =
     (case queue of
        [] \<Rightarrow> Some all_prereqs
      | current # rest \<Rightarrow>
          (case foldl visit_edge (all_prereqs, rest) (out_edges g current) of
             (all_prereqs', queue') \<Rightarrow> bfs_loop g all_prereqs' queue'))"

definition get_all_prerequisites :: "graph \<Rightarrow> string \<Rightarrow> node list option" where
  "get_all_prerequisites g course_id =
     map_option (List.map_filter (get_node g)) (bfs_loop g [] [course_id])"

declare bfs_loop.simps [code]

subsection \<open>Notions used to state the properties\<close>

text \<open>The direct prerequisite edges leaving a node, as \<open>get_prerequisites\<close> and
  the traversal read them, and the relation they form.\<close>

definition prereq_targets :: "graph \<Rightarrow> string \<Rightarrow> string list" where
  "prereq_targets g u =
     map (\<lambda>e. snd (fst e)) (filter (\<lambda>e. snd e = prerequisite) (out_edges g u))"

definition prereq_rel :: "graph \<Rightarrow> (string \<times> string) set" where
  "prereq_rel g = {(u, v). v \<in> set (prereq_targets g u)}"

text \<open>The targets that one pass of the inner \<open>for\<close> loop adds.\<close>

fun discovered :: "string list \<Rightarrow> edge list \<Rightarrow> string list" where
  "discovered seen [] = []"
| "discovered seen (e # es) =
     (if snd e = prerequisite \<and> snd (fst e) \<notin> set seen
      then snd (fst e) # discovered (seen @ [snd (fst e)]) es
      else discovered seen es)"

definition all_targets :: "graph \<Rightarrow> string set" where
  "all_targets g = (\<lambda>e. snd (fst e)) ` set (edges g)"

text \<open>Loop invariant: a visited node that has left the queue has all its direct
  prerequisites visited.\<close>

definition processed :: "graph \<Rightarrow> string list \<Rightarrow> string list \<Rightarrow> bool" where
  "processed g seen queue =
     (\<forall>u \<in> set seen. u \<notin> set queue \<longrightarrow> set (prereq_targets g u) \<subseteq> set seen)"

text \<open>The relation tag of the edge from \<open>u\<close> to \<open>v\<close>, if there is one.\<close>

definition rel_of :: "graph \<Rightarrow> string \<Rightarrow> string \<Rightarrow> relation option" where
  "rel_of g u v = map_of (edges g) (u, v)"

text \<open>Node ids are unique across all kinds (data model of the document).\<close>

definition unique_ids :: "document \<Rightarrow> bool" where
  "unique_ids doc =
     distinct (map d_id (departments doc) @ map f_id (faculty doc) @ map c_id (courses doc))"

subsection \<open>Two small documents\<close>

definition dept_cs :: department_entry where
  "dept_cs = \<lparr>d_id = ''dept_cs'', d_name = ''Computer Science'', d_code = ''CS'',
              d_faculty_head = Some ''smith''\<rparr>"

definition fac_smith :: faculty_entry where
  "fac_smith = \<lparr>f_id = ''smith'', f_name = ''Alice Smith'', f_title = ''Professor'',
                f_department = ''dept_cs'', f_email = None,
                f_research_areas = Some [''Machine Learning'']\<rparr>"

definition sample_doc :: document where
  "sample_doc =
     \<lparr>departments =
        [dept_cs,
         \<lparr>d_id = ''dept_math'', d_name = ''Mathematics'', d_code = ''MATH'',
          d_faculty_head = None\<rparr>],
      faculty =
        [fac_smith,
         \<lparr>f_id = ''lee'', f_name = ''Bob Lee'', f_title = ''Lecturer'',
          f_department = ''dept_cs'', f_email = Some ''lee@u.edu'', f_research_areas = None\<rparr>],
      courses =
        [\<lparr>c_id = ''cs101'', c_code = ''CS101'', c_name = ''Programming'', c_credits = 3,
          c_level = ''undergraduate'', c_department = ''dept_cs'', c_description = None,
          c_taught_by = Some [''lee'']\<rparr>,
         \<lparr>c_id = ''cs201'', c_code = ''CS201'', c_name = ''Data Structures'', c_credits = 4,
          c_level = ''undergraduate'', c_department = ''dept_cs'', c_description = None,
          c_taught_by = Some [''smith'']\<rparr>,
         \<lparr>c_id = ''math301'', c_code = ''MATH301'', c_name = ''Discrete Mathematics'',
          c_credits = 3, c_level = ''graduate'', c_department = ''dept_math'',
          c_description = None, c_taught_by = None\<rparr>],
      prerequisites =
        [\<lparr>p_course = ''cs201'', p_requires = ''cs101''\<rparr>,
         \<lparr>p_course = ''math301'', p_requires = ''cs201''\<rparr>]\<rparr>"

text \<open>The graph that loading \<open>sample_doc\<close> builds (lemma \<open>build_sample_doc\<close>).\<close>

definition sample_graph :: graph where
  "sample_graph =
     \<lparr>nodes =
        [(''dept_cs'',
          [(''type'', VStr ''department''), (''name'', VStr ''Computer Science''),
           (''code'', VStr ''CS'')]),
         (''dept_math'',
          [(''type'', VStr ''department''), (''name'', VStr ''Mathematics''),
           (''code'', VStr ''MATH'')]),
         (''smith'',
          [(''type'', VStr ''faculty''), (''name'', VStr ''Alice Smith''),
           (''title'', VStr ''Professor''), (''email'', VStr []),
           (''research_areas'', VList [''Machine Learning''])]),
         (''lee'',
          [(''type'', VStr ''faculty''), (''name'', VStr ''Bob Lee''),
           (''title'', VStr ''Lecturer''), (''email'', VStr ''lee@u.edu''),
           (''research_areas'', VList [])]),
         (''cs101'',
          [(''type'', VStr ''course''), (''code'', VStr ''CS101''),
           (''name'', VStr ''Programming''), (''credits'', VInt 3),
           (''level'', VStr ''undergraduate''), (''description'', VStr [])]),
         (''cs201'',
          [(''type'', VStr ''course''), (''code'', VStr ''CS201''),
           (''name'', VStr ''Data Structures''), (''credits'', VInt 4),
           (''level'', VStr ''undergraduate''), (''description'', VStr [])]),
         (''math301'',
          [(''type'', VStr ''course''), (''code'', VStr ''MATH301''),
           (''name'', VStr ''Discrete Mathematics''), (''credits'', VInt 3),
           (''level'', VStr ''graduate''), (''description'', VStr [])])],
      edges =
        [((''smith'', ''dept_cs''), heads),
         ((''lee'', ''dept_cs''), belongs_to),
         ((''cs101'', ''dept_cs''), belongs_to),
         ((''lee'', ''cs101''), teaches),
         ((''cs201'', ''dept_cs''), belongs_to),
         ((''smith'', ''cs201''), teaches),
         ((''math301'', ''dept_math''), belongs_to),
         ((''cs201'', ''cs101''), prerequisite),
         ((''math301'', ''cs201''), prerequisite)]\<rparr>"

text \<open>Two courses that require each other.\<close>

definition cycle_doc :: document where
  "cycle_doc =
     \<lparr>departments =
        [\<lparr>d_id = ''dept_cs'', d_name = ''Computer Science'', d_code = ''CS'',
          d_faculty_head = None\<rparr>],
      faculty = [],
      courses =
        [\<lparr>c_id = ''cs101'', c_code = ''CS101'', c_name = ''Programming'', c_credits = 3,
          c_level = ''undergraduate'', c_department = ''dept_cs'', c_description = None,
          c_taught_by = None\<rparr>,
         \<lparr>c_id = ''cs201'', c_code = ''CS201'', c_name = ''Data Structures'', c_credits = 4,
          c_level = ''undergraduate'', c_department = ''dept_cs'', c_description = None,
          c_taught_by = None\<rparr>],
      prerequisites =
        [\<lparr>p_course = ''cs201'', p_requires = ''cs101''\<rparr>,
         \<lparr>p_course = ''cs101'', p_requires = ''cs201''\<rparr>]\<rparr>"


section \<open>Python text operations\<close>

definition sq :: char where
  "sq = CHR 0x27"

definition dq :: char where
  "dq = CHR 0x22"

text \<open>\<open>str.upper\<close> and \<open>str.lower\<close>, on the ASCII letters.\<close>

definition upper_char :: "char \<Rightarrow> char" where
  "upper_char c =
     (let n = (of_char c :: nat) in if 97 \<le> n \<and> n \<le> 122 then char_of (n - 32) else c)"

definition lower_char :: "char \<Rightarrow> char" where
  "lower_char c =
     (let n = (of_char c :: nat) in if 65 \<le> n \<and> n \<le> 90 then char_of (n + 32) else c)"

definition upper :: "string \<Rightarrow> string" where
  "upper s = map upper_char s"

definition lower :: "string \<Rightarrow> string" where
  "lower s = map lower_char s"

text \<open>\<open>str(n)\<close> for an integer.\<close>

fun show_nat :: "nat \<Rightarrow> string" where
  "show_nat n =
     (if n < 10 then [char_of (48 + n)]
      else show_nat (n div 10) @ [char_of (48 + n mod 10)])"

definition show_int :: "int \<Rightarrow> string" where
  "show_int i = (if i < 0 then CHR ''-'' # show_nat (nat (- i)) else show_nat (nat i))"

text \<open>\<open>repr(s)\<close> for a string: single quotes, unless the string has a single
  quote and no double quote; backslash, the quote and control characters are
  escaped.\<close>

definition hex_digit :: "nat \<Rightarrow> char" where
  "hex_digit n = (if n < 10 then char_of (48 + n) else char_of (87 + n))"

definition repr_char :: "char \<Rightarrow> char \<Rightarrow> string" where
  "repr_char q c =
     (let n = (of_char c :: nat) in
      if c = q \<or> c = CHR 0x5C then [CHR 0x5C, c]
      else if n = 9 then [CHR 0x5C, CHR ''t'']
      else if n = 10 then [CHR 0x5C, CHR ''n'']
      else if n = 13 then [CHR 0x5C, CHR ''r'']
      else if n < 32 \<or> n = 127 then [CHR 0x5C, CHR ''x'', hex_digit (n div 16), hex_digit (n mod 16)]
      else [c])"

definition repr_str :: "string \<Rightarrow> string" where
  "repr_str s =
     (let q = (if sq \<in> set s \<and> dq \<notin> set s then dq else sq)
      in [q] @ concat (map (repr_char q) s) @ [q])"

fun join :: "string \<Rightarrow> string list \<Rightarrow> string" where
  "join sep [] = []"
| "join sep [x] = x"
| "join sep (x # y # ys) = x @ sep @ join sep (y # ys)"

text \<open>\<open>str(v)\<close>, as an f-string formats a value that may be \<open>None\<close>.\<close>

fun py_str :: "val option \<Rightarrow> string" where
  "py_str None = ''None''"
| "py_str (Some (VStr s)) = s"
| "py_str (Some (VInt i)) = show_int i"
| "py_str (Some (VList xs)) = ''['' @ join '', '' (map repr_str xs) @ '']''"

fun type_name :: "val option \<Rightarrow> string" where
  "type_name None = ''NoneType''"
| "type_name (Some (VStr s)) = ''str''"
| "type_name (Some (VInt i)) = ''int''"
| "type_name (Some (VList xs)) = ''list''"

section \<open>Exceptions\<close>

datatype exn = AttributeError string | KeyError string | TypeError string

text \<open>\<open>str(e)\<close>; a \<open>KeyError\<close> prints the \<open>repr\<close> of its key.\<close>

fun exn_message :: "exn \<Rightarrow> string" where
  "exn_message (AttributeError m) = m"
| "exn_message (KeyError k) = repr_str k"
| "exn_message (TypeError m) = m"

text \<open>\<open>x.upper()\<close> for a value that may be \<open>None\<close> or not a string.\<close>

fun py_upper :: "val option \<Rightarrow> exn + string" where
  "py_upper (Some (VStr s)) = Inr (upper s)"
| "py_upper v =
     Inl (AttributeError
            ([sq] @ type_name v @ [sq] @ '' object has no attribute '' @ [sq] @ ''upper'' @ [sq]))"

text \<open>\<open>get_course_by_code\<close>: the first course whose code equals the argument,
  both in upper case; the comparison raises when either side is not a string.\<close>

fun find_by_code :: "node list \<Rightarrow> val option \<Rightarrow> exn + node option" where
  "find_by_code [] code = Inr None"
| "find_by_code (course # rest) code =
     (case py_upper (Some (case map_of (nattrs course) ''code'' of
                             None \<Rightarrow> VStr '''' | Some v \<Rightarrow> v)) of
        Inl e \<Rightarrow> Inl e
      | Inr a \<Rightarrow>
          (case py_upper code of
             Inl e \<Rightarrow> Inl e
           | Inr b \<Rightarrow> if a = b then Inr (Some course) else find_by_code rest code))"

definition get_course_by_code :: "graph \<Rightarrow> val option \<Rightarrow> exn + node option" where
  "get_course_by_code g code = find_by_code (get_all_courses g) code"

section \<open>SymbolicReasoner\<close>

datatype QueryType =
    GET_COURSE_INFO | GET_FACULTY_INFO | GET_DEPARTMENT_INFO | GET_PREREQUISITES
  | GET_ALL_PREREQUISITES | GET_COURSES_BY_DEPARTMENT | GET_FACULTY_BY_DEPARTMENT
  | GET_COURSES_TAUGHT_BY | GET_COURSE_INSTRUCTORS | GET_DEPARTMENT_HEAD | CAN_TAKE_COURSE
  | GET_COURSES_REQUIRING | GET_COURSES_BY_LEVEL | GET_FACULTY_BY_RESEARCH | SEARCH_COURSES
  | COUNT_ENTITIES | COMPARE_COURSES

fun query_type_name :: "QueryType \<Rightarrow> string" where
  "query_type_name GET_COURSE_INFO = ''GET_COURSE_INFO''"
| "query_type_name GET_FACULTY_INFO = ''GET_FACULTY_INFO''"
| "query_type_name GET_DEPARTMENT_INFO = ''GET_DEPARTMENT_INFO''"
| "query_type_name GET_PREREQUISITES = ''GET_PREREQUISITES''"
| "query_type_name GET_ALL_PREREQUISITES = ''GET_ALL_PREREQUISITES''"
| "query_type_name GET_COURSES_BY_DEPARTMENT = ''GET_COURSES_BY_DEPARTMENT''"
| "query_type_name GET_FACULTY_BY_DEPARTMENT = ''GET_FACULTY_BY_DEPARTMENT''"
| "query_type_name GET_COURSES_TAUGHT_BY = ''GET_COURSES_TAUGHT_BY''"
| "query_type_name GET_COURSE_INSTRUCTORS = ''GET_COURSE_INSTRUCTORS''"
| "query_type_name GET_DEPARTMENT_HEAD = ''GET_DEPARTMENT_HEAD''"
| "query_type_name CAN_TAKE_COURSE = ''CAN_TAKE_COURSE''"
| "query_type_name GET_COURSES_REQUIRING = ''GET_COURSES_REQUIRING''"
| "query_type_name GET_COURSES_BY_LEVEL = ''GET_COURSES_BY_LEVEL''"
| "query_type_name GET_FACULTY_BY_RESEARCH = ''GET_FACULTY_BY_RESEARCH''"
| "query_type_name SEARCH_COURSES = ''SEARCH_COURSES''"
| "query_type_name COUNT_ENTITIES = ''COUNT_ENTITIES''"
| "query_type_name COMPARE_COURSES = ''COMPARE_COURSES''"

text \<open>A step of the reasoning chain. Its \<open>inputs\<close> and \<open>outputs\<close> are snapshots
  of dictionaries for display; the model keeps the rule name and the
  description.\<close>

record ReasoningStep =
  rule_name :: string
  description :: string

record comparison =
  course1 :: node
  course2 :: node
  same_department :: bool
  same_level :: bool
  credits_diff :: int
  common_prereq_count :: nat

datatype answer = AnswerNode node | AnswerNodes "node list" | AnswerComparison comparison

record ReasoningResult =
  query_type :: QueryType
  answer :: "answer option"
  success :: bool
  reasoning_chain :: "ReasoningStep list"
  error_message :: "string option"

text \<open>What a rule does with its parameters: it returns a result, raises an
  exception (\<open>Inl\<close>), or does not return (\<open>None\<close>).\<close>

type_synonym rule = "attrs \<Rightarrow> (exn + ReasoningResult) option"

definition course_not_found :: "val option \<Rightarrow> ReasoningResult" where
  "course_not_found code =
     \<lparr>query_type = COMPARE_COURSES, answer = None, success = False, reasoning_chain = [],
      error_message = Some (''Course not found: '' @ py_str code)\<rparr>"

text \<open>\<open>a - b\<close> on two attribute values.\<close>

fun py_sub :: "val \<Rightarrow> val \<Rightarrow> exn + int" where
  "py_sub (VInt a) (VInt b) = Inr (a - b)"
| "py_sub a b =
     Inl (TypeError (''unsupported operand type(s) for -: '' @ [sq] @ type_name (Some a) @ [sq]
                     @ '' and '' @ [sq] @ type_name (Some b) @ [sq]))"

definition rule_compare_courses :: "graph \<Rightarrow> rule" where
  "rule_compare_courses kg params =
     (let course1_code = map_of params ''course1'';
          course2_code = map_of params ''course2''
      in case get_course_by_code kg course1_code of
           Inl e \<Rightarrow> Some (Inl e)
         | Inr found1 \<Rightarrow>
       (case get_course_by_code kg course2_code of
           Inl e \<Rightarrow> Some (Inl e)
         | Inr found2 \<Rightarrow>
       (case found1 of
           None \<Rightarrow> Some (Inr (course_not_found course1_code))
         | Some crs1 \<Rightarrow>
       (case found2 of
           None \<Rightarrow> Some (Inr (course_not_found course2_code))
         | Some crs2 \<Rightarrow>
       (case map_of (nattrs crs1) ''name'' of
           None \<Rightarrow> Some (Inl (KeyError ''name''))
         | Some name1 \<Rightarrow>
       (case map_of (nattrs crs2) ''name'' of
           None \<Rightarrow> Some (Inl (KeyError ''name''))
         | Some name2 \<Rightarrow>
       (case get_all_prerequisites kg (nid crs1) of
           None \<Rightarrow> None
         | Some all1 \<Rightarrow>
       (case get_all_prerequisites kg (nid crs2) of
           None \<Rightarrow> None
         | Some all2 \<Rightarrow>
       (let prereqs1 = set (map nid all1);
            prereqs2 = set (map nid all2);
            common_prereqs = prereqs1 \<inter> prereqs2;
            chain =
              [\<lparr>rule_name = ''RESOLVE_COURSES'',
                description = ''Resolved courses: '' @ py_str (Some name1) @ '' and ''
                              @ py_str (Some name2)\<rparr>,
               \<lparr>rule_name = ''COMPARE_PREREQUISITES'',
                description = ''Common prerequisites: '' @ show_nat (card common_prereqs)\<rparr>]
        in case py_sub (case map_of (nattrs crs1) ''credits'' of
                          None \<Rightarrow> VInt 0 | Some v \<Rightarrow> v)
                       (case map_of (nattrs crs2) ''credits'' of
                          None \<Rightarrow> VInt 0 | Some v \<Rightarrow> v) of
             Inl e \<Rightarrow> Some (Inl e)
           | Inr diff \<Rightarrow>
               Some (Inr
                 \<lparr>query_type = COMPARE_COURSES,
                  answer = Some (AnswerComparison
                    \<lparr>course1 = crs1, course2 = crs2,
                     same_department =
                       (map_of (nattrs crs1) ''department''
                          = map_of (nattrs crs2) ''department''),
                     same_level =
                       (map_of (nattrs crs1) ''level'' = map_of (nattrs crs2) ''level''),
                     credits_diff = diff,
                     common_prereq_count = card common_prereqs\<rparr>),
                  success = True, reasoning_chain = chain,
                  error_message = None\<rparr>))))))))))"

record SymbolicReasoner =
  kg :: graph
  rules :: "QueryType \<Rightarrow> rule option"

definition execute_query :: "SymbolicReasoner \<Rightarrow> QueryType \<Rightarrow> attrs \<Rightarrow> ReasoningResult option" where
  "execute_query self qt params =
     (case rules self qt of
        None \<Rightarrow>
          Some \<lparr>query_type = qt, answer = None, success = False, reasoning_chain = [],
                error_message = Some (''Unknown query type: QueryType.'' @ query_type_name qt)\<rparr>
      | Some rule \<Rightarrow>
          (case rule params of
             None \<Rightarrow> None
           | Some (Inr result) \<Rightarrow> Some result
           | Some (Inl e) \<Rightarrow>
               Some \<lparr>query_type = qt, answer = None, success = False, reasoning_chain = [],
                     error_message = Some (exn_message e)\<rparr>))"

text \<open>A reasoner whose table registers the comparison rule only. (The
  constructor of the source registers a rule for each of the seventeen query
  types.)\<close>

definition compare_reasoner :: "graph \<Rightarrow> SymbolicReasoner" where
  "compare_reasoner g = \<lparr>kg = g, rules = [COMPARE_COURSES \<mapsto> rule_compare_courses g]\<rparr>"

text \<open>The comparison carried by a result, if it carries one.\<close>

definition compare_answer :: "ReasoningResult option \<Rightarrow> comparison option" where
  "compare_answer r =
     (case r of
        None \<Rightarrow> None
      | Some res \<Rightarrow>
          (case answer res of
             Some (AnswerComparison c) \<Rightarrow> Some c
           | _ \<Rightarrow> None))"


section \<open>Regular expressions (the fragment of Python's \<open>re\<close> the parser uses)\<close>

definition nl :: char where
  "nl = CHR 0x0A"

definition is_digit :: "char \<Rightarrow> bool" where
  "is_digit c = (let n = (of_char c :: nat) in 48 \<le> n \<and> n \<le> 57)"

definition is_alpha :: "char \<Rightarrow> bool" where
  "is_alpha c = (let n = (of_char c :: nat) in (65 \<le> n \<and> n \<le> 90) \<or> (97 \<le> n \<and> n \<le> 122))"

definition is_word :: "char \<Rightarrow> bool" where
  "is_word c = (is_alpha c \<or> is_digit c \<or> c = CHR ''_'')"

definition is_space :: "char \<Rightarrow> bool" where
  "is_space c = (let n = (of_char c :: nat) in (9 \<le> n \<and> n \<le> 13) \<or> (28 \<le> n \<and> n \<le> 32))"

text \<open>Character classes: \<open>\w\<close>, \<open>\d\<close>, \<open>\s\<close>, \<open>[A-Za-z]\<close>, \<open>.\<close> (no newline) and
  the complement of the double quote.\<close>

datatype cls = Word | Digit | Space | Alpha | Dot | NotDq

fun in_cls :: "cls \<Rightarrow> char \<Rightarrow> bool" where
  "in_cls Word c = is_word c"
| "in_cls Digit c = is_digit c"
| "in_cls Space c = is_space c"
| "in_cls Alpha c = is_alpha c"
| "in_cls Dot c = (c \<noteq> nl)"
| "in_cls NotDq c = (c \<noteq> dq)"

text \<open>
  \<open>Chr\<close> a literal character, \<open>Cls\<close> one character of a class, \<open>Star\<close> and
  \<open>Plus\<close> the greedy repetition of a class, \<open>Opt\<close> the greedy \<open>?\<close>, \<open>Grp\<close> a
  numbered capturing group, \<open>Bnd\<close> the word boundary \<open>\b\<close>.
\<close>

datatype rx =
    Eps
  | Chr char
  | Cls cls
  | Cat rx rx
  | Alt rx rx
  | Opt rx
  | Star cls
  | Plus cls
  | Grp nat rx
  | Bnd

type_synonym caps = "(nat \<times> string) list"

text \<open>A position in the subject: the character before it (for \<open>\b\<close>) and the
  rest of the text.\<close>

type_synonym pos = "char option \<times> string"

fun many0 :: "cls \<Rightarrow> pos \<Rightarrow> pos list" where
  "many0 C (p, []) = [(p, [])]"
| "many0 C (p, x # xs) =
     (if in_cls C x then many0 C (Some x, xs) @ [(p, x # xs)] else [(p, x # xs)])"

definition many1 :: "cls \<Rightarrow> pos \<Rightarrow> pos list" where
  "many1 C st =
     (case snd st of
        [] \<Rightarrow> []
      | x # xs \<Rightarrow> if in_cls C x then many0 C (Some x, xs) else [])"

definition at_boundary :: "pos \<Rightarrow> bool" where
  "at_boundary st =
     ((case fst st of None \<Rightarrow> False | Some c \<Rightarrow> is_word c)
      \<noteq> (case snd st of [] \<Rightarrow> False | x # xs \<Rightarrow> is_word x))"

text \<open>
  The backtracking matcher: all ways to match at a position, in the order in
  which the engine tries them (greedy repetitions longest first, alternatives
  left to right); the first is the match. \<open>ic\<close> is \<open>re.IGNORECASE\<close>.
\<close>

fun rmatch :: "bool \<Rightarrow> rx \<Rightarrow> pos \<Rightarrow> caps \<Rightarrow> (pos \<times> caps) list" where
  "rmatch ic Eps st k = [(st, k)]"
| "rmatch ic (Chr c) st k =
     (case snd st of
        [] \<Rightarrow> []
      | x # xs \<Rightarrow>
          if (if ic then lower_char x = lower_char c else x = c)
          then [((Some x, xs), k)] else [])"
| "rmatch ic (Cls C) st k =
     (case snd st of
        [] \<Rightarrow> []
      | x # xs \<Rightarrow> if in_cls C x then [((Some x, xs), k)] else [])"
| "rmatch ic (Cat a b) st k =
     concat (map (\<lambda>r. rmatch ic b (fst r) (snd r)) (rmatch ic a st k))"
| "rmatch ic (Alt a b) st k = rmatch ic a st k @ rmatch ic b st k"
| "rmatch ic (Opt a) st k = rmatch ic a st k @ [(st, k)]"
| "rmatch ic (Star C) st k = map (\<lambda>st'. (st', k)) (many0 C st)"
| "rmatch ic (Plus C) st k = map (\<lambda>st'. (st', k)) (many1 C st)"
| "rmatch ic (Grp i a) st k =
     map (\<lambda>r. (fst r,
                AList.update i (take (length (snd st) - length (snd (fst r))) (snd st)) (snd r)))
       (rmatch ic a st k)"
| "rmatch ic Bnd st k = (if at_boundary st then [(st, k)] else [])"

text \<open>\<open>re.search\<close>: the first position, from the left, at which the pattern
  matches; the result is the captures of the match.\<close>

fun search_from :: "bool \<Rightarrow> rx \<Rightarrow> char option \<Rightarrow> string \<Rightarrow> caps option" where
  "search_from ic r p [] =
     (case rmatch ic r (p, []) [] of [] \<Rightarrow> None | m # _ \<Rightarrow> Some (snd m))"
| "search_from ic r p (x # xs) =
     (case rmatch ic r (p, x # xs) [] of
        [] \<Rightarrow> search_from ic r (Some x) xs
      | m # _ \<Rightarrow> Some (snd m))"

definition re_search :: "bool \<Rightarrow> rx \<Rightarrow> string \<Rightarrow> caps option" where
  "re_search ic r s = search_from ic r None s"

text \<open>\<open>m.group(i)\<close>. Every group of the patterns below takes part in every
  match of its pattern.\<close>

definition group :: "caps \<Rightarrow> nat \<Rightarrow> string" where
  "group m i = (case map_of m i of None \<Rightarrow> [] | Some s \<Rightarrow> s)"

text \<open>\<open>re.findall\<close> for a pattern with one group: the group of each match,
  the matches not overlapping.\<close>

function findall_from :: "rx \<Rightarrow> char option \<Rightarrow> string \<Rightarrow> string list" where
  "findall_from r p [] = []"
| "findall_from r p (x # xs) =
     (case rmatch False r (p, x # xs) [] of
        [] \<Rightarrow> findall_from r (Some x) xs
      | m # _ \<Rightarrow>
          group (snd m) 1 #
            (if length (snd (fst m)) < length (x # xs)
             then findall_from r (fst (fst m)) (snd (fst m))
             else findall_from r (Some x) xs))"
  by pat_completeness auto
termination
  by (relation "measure (\<lambda>(r, p, s). length s)") auto

definition re_findall :: "rx \<Rightarrow> string \<Rightarrow> string list" where
  "re_findall r s = findall_from r None s"

text \<open>Building patterns.\<close>

definition lit :: "string \<Rightarrow> rx" where
  "lit s = foldr (\<lambda>c r. Cat (Chr c) r) s Eps"

definition seq :: "rx list \<Rightarrow> rx" where
  "seq rs = foldr Cat rs Eps"

fun alts :: "rx list \<Rightarrow> rx" where
  "alts [] = Eps"
| "alts [r] = r"
| "alts (r # rs) = Alt r (alts rs)"

definition ws :: rx where
  "ws = Plus Space"

definition opt_s :: rx where
  "opt_s = Opt (Chr CHR ''s'')"

text \<open>\<open>(\w+\d+)\<close> as group \<open>i\<close>.\<close>

definition code_group :: "nat \<Rightarrow> rx" where
  "code_group i = Grp i (Cat (Plus Word) (Plus Digit))"

text \<open>\<open>(\w+)\<close> as group 1.\<close>

definition word_group :: rx where
  "word_group = Grp 1 (Plus Word)"

section \<open>More Python text operations\<close>

definition startswith :: "string \<Rightarrow> string \<Rightarrow> bool" where
  "startswith s pre = (take (length pre) s = pre)"

text \<open>\<open>sub in s\<close>.\<close>

fun contains :: "string \<Rightarrow> string \<Rightarrow> bool" where
  "contains [] sub = (sub = [])"
| "contains (x # xs) sub = (startswith (x # xs) sub \<or> contains xs sub)"

definition strip :: "string \<Rightarrow> string" where
  "strip s = rev (dropWhile is_space (rev (dropWhile is_space s)))"

text \<open>\<open>s.rstrip('s')\<close>.\<close>

definition rstrip_s :: "string \<Rightarrow> string" where
  "rstrip_s s = rev (dropWhile (\<lambda>c. c = CHR ''s'') (rev s))"

text \<open>\<open>s.replace('ies', 'y')\<close>.\<close>

fun replace_ies :: "string \<Rightarrow> string" where
  "replace_ies [] = []"
| "replace_ies (x # xs) =
     (if startswith (x # xs) ''ies'' then CHR ''y'' # replace_ies (drop 2 xs)
      else x # replace_ies xs)"

section \<open>MockLLMProvider\<close>

definition COURSE_NAME_MAP :: "(string \<times> string) list" where
  "COURSE_NAME_MAP =
     [(''machine learning'', ''CS401''),
      (''natural language processing'', ''CS402''),
      (''nlp'', ''CS402''),
      (''algorithms'', ''CS301''),
      (''data structures'', ''CS201''),
      (''programming'', ''CS101''),
      (''intro to programming'', ''CS101''),
      (''introduction to programming'', ''CS101''),
      (''cybersecurity'', ''CS450''),
      (''computer networks'', ''CS350''),
      (''networks'', ''CS350''),
      (''quantum mechanics'', ''PHYS301''),
      (''linear algebra'', ''MATH201''),
      (''calculus'', ''MATH101''),
      (''discrete mathematics'', ''MATH301''),
      (''discrete math'', ''MATH301''),
      (''probability'', ''MATH401''),
      (''physics'', ''PHYS101''),
      (''circuits'', ''EE101''),
      (''digital logic'', ''EE201''),
      (''signal processing'', ''EE301'')]"

text \<open>The loop \<open>for name, code in ...items(): if name in question: ... break\<close>.\<close>

fun first_name_in :: "(string \<times> string) list \<Rightarrow> string \<Rightarrow> string option" where
  "first_name_in [] question = None"
| "first_name_in ((name, code) # rest) question =
     (if contains question name then Some code else first_name_in rest question)"

definition course_code_re :: rx where
  "course_code_re = seq [Bnd, Grp 1 (Cat (Plus Alpha) (Plus Digit)), Bnd]"

definition extract_course_code :: "string \<Rightarrow> string" where
  "extract_course_code question =
     (case re_search False course_code_re question of
        Some m \<Rightarrow> upper (group m 1)
      | None \<Rightarrow>
          (case first_name_in COURSE_NAME_MAP (lower question) of
             Some code \<Rightarrow> code
           | None \<Rightarrow> []))"

definition dept_map :: "(string \<times> string) list" where
  "dept_map =
     [(''computer science'', ''CS''), (''computer'', ''CS''), (''cs'', ''CS''), (''comp'', ''CS''),
      (''mathematics'', ''MATH''), (''math'', ''MATH''), (''maths'', ''MATH''),
      (''physics'', ''PHYS''), (''phys'', ''PHYS''),
      (''electrical engineering'', ''EE''), (''electrical'', ''EE''), (''ee'', ''EE'')]"

definition normalize_dept_code :: "string \<Rightarrow> string" where
  "normalize_dept_code dept =
     (case map_of dept_map (lower dept) of None \<Rightarrow> upper dept | Some code \<Rightarrow> code)"

definition extract_completed_courses :: "string \<Rightarrow> string list" where
  "extract_completed_courses question =
     map upper (filter (\<lambda>c. lower c \<notin> set [''cs401'', ''take''])
                  (re_findall course_code_re question))"

text \<open>
  The response of the provider. The source serialises a dictionary with
  \<open>json.dumps\<close> and \<open>parse_question\<close> reads it back with \<open>json.loads\<close>, which is
  the identity on these dictionaries; the model passes the dictionary. The
  confidence is one of three constants.
\<close>

record llm_response =
  r_query_type :: string
  r_parameters :: attrs
  r_confidence :: rat

type_synonym pattern = "rx \<times> string \<times> (caps \<Rightarrow> attrs)"

definition entity_param :: "caps \<Rightarrow> attrs" where
  "entity_param m = [(''entity_type'', VStr (replace_ies (rstrip_s (group m 1))))]"

definition code_param :: "caps \<Rightarrow> attrs" where
  "code_param m = [(''course_code'', VStr (upper (group m 1)))]"

definition compare_param :: "caps \<Rightarrow> attrs" where
  "compare_param m =
     [(''course1'', VStr (upper (group m 1))), (''course2'', VStr (upper (group m 2)))]"

definition dept_param :: "caps \<Rightarrow> attrs" where
  "dept_param m = [(''code'', VStr (normalize_dept_code (group m 1)))]"

text \<open>\<open>rc or self._extract_course_code(q)\<close>.\<close>

definition resolved_or_extracted :: "string option \<Rightarrow> string \<Rightarrow> caps \<Rightarrow> attrs" where
  "resolved_or_extracted rc q m =
     [(''course_code'',
       VStr (case rc of
               None \<Rightarrow> extract_course_code q
             | Some code \<Rightarrow> if code = [] then extract_course_code q else code))]"

definition faculty_y_ies :: rx where
  "faculty_y_ies = Cat (lit ''facult'') (Alt (lit ''y'') (lit ''ies''))"

text \<open>\<open>(?:dr\.?|professor)?\<close>\<close>

definition title_opt :: rx where
  "title_opt = Opt (Alt (Cat (lit ''dr'') (Opt (Chr CHR ''.''))) (lit ''professor''))"

text \<open>\<open>(\w+(?:\s+\w+)?)\<close> as group 1.\<close>

definition name_group :: rx where
  "name_group = Grp 1 (Cat (Plus Word) (Opt (Cat ws (Plus Word))))"

text \<open>The ordered rule list of \<open>generate\<close>, for the lower-cased question and the
  course resolved from an informal name.\<close>

definition patterns :: "string \<Rightarrow> string option \<Rightarrow> pattern list" where
  "patterns question resolved_course =
     [(seq [lit ''how'', ws, lit ''many'', ws,
            Grp 1 (alts [Cat (lit ''course'') opt_s, faculty_y_ies,
                         Cat (lit ''department'') opt_s, Cat (lit ''professor'') opt_s])],
       ''COUNT_ENTITIES'', entity_param),
      (seq [Opt (Cat (lit ''total'') ws), lit ''number'', ws, lit ''of'', ws,
            Grp 1 (alts [Cat (lit ''course'') opt_s, faculty_y_ies,
                         Cat (lit ''department'') opt_s])],
       ''COUNT_ENTITIES'', entity_param),
      (seq [lit ''compare'', ws, code_group 1, ws,
            alts [lit ''and'', lit ''with'', lit ''to'', lit ''vs''], ws, code_group 2],
       ''COMPARE_COURSES'', compare_param),
      (seq [lit ''difference'', ws, lit ''between'', ws, code_group 1, ws, lit ''and'', ws,
            code_group 2],
       ''COMPARE_COURSES'', compare_param),
      (seq [lit ''all'', ws, Opt (Cat (lit ''the'') ws), lit ''prerequisite'', opt_s, ws,
            alts [lit ''for'', lit ''of'', seq [lit ''to'', ws, lit ''take'']], ws, code_group 1],
       ''GET_ALL_PREREQUISITES'', code_param),
      (seq [lit ''all'', ws, Opt (Cat (lit ''the'') ws), lit ''prerequisite'', opt_s, Star Dot,
            lit ''including'', ws, lit ''transitive''],
       ''GET_ALL_PREREQUISITES'',
       (\<lambda>m. [(''course_code'', VStr (extract_course_code question))])),
      (seq [Opt (Cat (lit ''what'') ws), lit ''prerequisite'', opt_s, ws, lit ''do'', ws,
            lit ''i'', ws, lit ''need'', ws, lit ''to'', ws, lit ''take''],
       ''GET_ALL_PREREQUISITES'', resolved_or_extracted resolved_course question),
      (seq [lit ''what'', ws,
            Alt (seq [lit ''do'', ws, lit ''i'', ws, lit ''need''])
                (seq [lit ''are'', ws, lit ''the'', ws, lit ''requirements'']),
            ws, Alt (seq [lit ''to'', ws, lit ''take'']) (lit ''for'')],
       ''GET_ALL_PREREQUISITES'', resolved_or_extracted resolved_course question),
      (seq [lit ''prerequisite'', ws, lit ''chain'', ws, lit ''for''],
       ''GET_ALL_PREREQUISITES'', resolved_or_extracted resolved_course question),
      (seq [Opt (seq [lit ''what'', ws, lit ''are'', ws]), Opt (Cat (lit ''the'') ws),
            lit ''prerequisite'', opt_s, ws, Alt (lit ''for'') (lit ''of''), ws, code_group 1],
       ''GET_PREREQUISITES'', code_param),
      (seq [Opt (Cat (lit ''list'') ws), Opt (Cat (lit ''all'') ws),
            Grp 1 (Alt (lit ''undergraduate'') (lit ''graduate'')), ws, lit ''course'', opt_s],
       ''GET_COURSES_BY_LEVEL'', (\<lambda>m. [(''level'', VStr (group m 1))])),
      (seq [Grp 1 (Alt (lit ''undergraduate'') (lit ''graduate'')), ws, lit ''level'', ws,
            lit ''course'', opt_s],
       ''GET_COURSES_BY_LEVEL'', (\<lambda>m. [(''level'', VStr (group m 1))])),
      (seq [Opt (seq [lit ''who'', ws, lit ''is'', ws]), Opt (Cat (lit ''the'') ws),
            lit ''head'', ws, lit ''of'', ws, Opt (Cat (lit ''the'') ws), word_group,
            Opt (Cat ws (lit ''department''))],
       ''GET_DEPARTMENT_HEAD'', dept_param),
      (seq [word_group, ws, lit ''department'', ws, lit ''head''],
       ''GET_DEPARTMENT_HEAD'', dept_param),
      (seq [Opt (Cat (lit ''what'') ws), lit ''course'', opt_s, ws, lit ''require'', ws,
            code_group 1],
       ''GET_COURSES_REQUIRING'', code_param),
      (seq [lit ''which'', ws, lit ''course'', opt_s, ws, Alt (lit ''need'') (lit ''require''),
            ws, code_group 1],
       ''GET_COURSES_REQUIRING'', code_param),
      (seq [lit ''who'', ws, lit ''teache'', opt_s, ws, code_group 1],
       ''GET_COURSE_INSTRUCTORS'', code_param),
      (seq [lit ''instructor'', opt_s, ws, Alt (lit ''for'') (lit ''of''), ws, code_group 1],
       ''GET_COURSE_INSTRUCTORS'', code_param),
      (seq [code_group 1, ws, Opt (Cat (lit ''is'') ws), lit ''taught'', ws, lit ''by''],
       ''GET_COURSE_INSTRUCTORS'', code_param),
      (seq [alts [seq [lit ''tell'', ws, lit ''me'', ws, lit ''about''],
                  seq [lit ''what'', ws, lit ''is''],
                  lit ''describe'',
                  seq [lit ''info'', ws, Alt (lit ''about'') (lit ''on'')]],
            ws, Opt (Cat (lit ''the'') ws), Opt (Cat (lit ''course'') ws), code_group 1],
       ''GET_COURSE_INFO'', code_param),
      (seq [code_group 1, ws, Opt (Cat (lit ''course'') ws),
            alts [lit ''info'', lit ''information'', lit ''details'']],
       ''GET_COURSE_INFO'', code_param),
      (seq [alts [seq [lit ''tell'', ws, lit ''me'', ws, lit ''about''],
                  seq [lit ''what'', ws, lit ''is''],
                  lit ''describe''],
            ws, Opt (Cat (lit ''the'') ws), word_group, ws, lit ''department''],
       ''GET_DEPARTMENT_INFO'', dept_param),
      (seq [alts [lit ''info'', lit ''information'', lit ''details''], ws,
            Alt (lit ''about'') (lit ''on''), ws, Opt (Cat (lit ''the'') ws), word_group, ws,
            lit ''department''],
       ''GET_DEPARTMENT_INFO'', dept_param),
      (seq [Opt (Cat (lit ''what'') ws), lit ''course'', opt_s, ws, Opt (Cat (lit ''are'') ws),
            Opt (Cat (lit ''offered'') ws), Alt (lit ''in'') (lit ''by''), ws,
            Opt (Cat (lit ''the'') ws), word_group, Star Space, Opt (lit ''department'')],
       ''GET_COURSES_BY_DEPARTMENT'', dept_param),
      (seq [lit ''list'', ws, Opt (Cat (lit ''all'') ws), word_group, ws, lit ''course'', opt_s],
       ''GET_COURSES_BY_DEPARTMENT'', dept_param),
      (seq [word_group, ws, lit ''department'', ws, lit ''course'', opt_s],
       ''GET_COURSES_BY_DEPARTMENT'', dept_param),
      (seq [Opt (seq [lit ''who'', ws, lit ''are'', ws]), Opt (Cat (lit ''the'') ws),
            faculty_y_ies, ws, lit ''in'', ws, Opt (Cat (lit ''the'') ws), word_group],
       ''GET_FACULTY_BY_DEPARTMENT'', dept_param),
      (seq [lit ''professor'', opt_s, ws, lit ''in'', ws, Opt (Cat (lit ''the'') ws), word_group],
       ''GET_FACULTY_BY_DEPARTMENT'', dept_param),
      (seq [lit ''who'', ws, lit ''teache'', opt_s, ws, Opt (Cat (lit ''in'') ws),
            Opt (Cat (lit ''the'') ws), word_group, ws, lit ''department''],
       ''GET_FACULTY_BY_DEPARTMENT'', dept_param),
      (seq [Opt (Cat (lit ''what'') ws), lit ''course'', opt_s, ws,
            Alt (lit ''does'') (lit ''is''), ws, title_opt, Star Space, name_group, ws,
            lit ''teach''],
       ''GET_COURSES_TAUGHT_BY'', (\<lambda>m. [(''name'', VStr (group m 1))])),
      (seq [title_opt, Star Space, word_group, Opt (Chr sq), opt_s, ws, lit ''course'', opt_s],
       ''GET_COURSES_TAUGHT_BY'', (\<lambda>m. [(''name'', VStr (group m 1))])),
      (seq [Opt (Cat (lit ''who'') ws), Opt (Cat (lit ''does'') ws), lit ''research'', ws,
            alts [lit ''on'', lit ''in'', lit ''about''], ws, Grp 1 (Plus Dot)],
       ''GET_FACULTY_BY_RESEARCH'', (\<lambda>m. [(''area'', VStr (strip (group m 1)))])),
      (seq [faculty_y_ies, ws, Opt (Cat (lit ''working'') ws), Alt (lit ''on'') (lit ''in''), ws,
            Grp 1 (Plus Dot)],
       ''GET_FACULTY_BY_RESEARCH'', (\<lambda>m. [(''area'', VStr (strip (group m 1)))])),
      (seq [Grp 1 (alts [seq [lit ''machine'', ws, lit ''learning''], lit ''ai'',
                         seq [lit ''artificial'', ws, lit ''intelligence''], lit ''nlp'',
                         seq [lit ''data'', ws, lit ''mining'']]),
            ws,
            Alt (Cat (lit ''research'') (Opt (Cat (lit ''er'') opt_s))) faculty_y_ies],
       ''GET_FACULTY_BY_RESEARCH'', (\<lambda>m. [(''area'', VStr (group m 1))])),
      (seq [lit ''can'', ws, Alt (lit ''i'') (seq [lit ''a'', ws, lit ''student'']), ws,
            lit ''take'', ws, code_group 1],
       ''CAN_TAKE_COURSE'',
       (\<lambda>m. [(''course_code'', VStr (upper (group m 1))),
              (''completed_courses'', VList (extract_completed_courses question))])),
      (seq [Alt (seq [lit ''who'', ws, lit ''is''])
                (seq [lit ''tell'', ws, lit ''me'', ws, lit ''about'']),
            ws, title_opt, Star Space, name_group],
       ''GET_FACULTY_INFO'', (\<lambda>m. [(''name'', VStr (group m 1))])),
      (seq [alts [lit ''search'', lit ''find'', seq [lit ''look'', ws, lit ''for'']], ws,
            Opt (seq [lit ''course'', opt_s, ws]),
            Opt (alts [lit ''about'', lit ''on'', seq [lit ''related'', ws, lit ''to'']]),
            Star Space, Grp 1 (Plus Dot)],
       ''SEARCH_COURSES'', (\<lambda>m. [(''query'', VStr (strip (group m 1)))])),
      (seq [Opt (seq [lit ''are'', ws, lit ''there'', ws]), Opt (Cat (lit ''any'') ws),
            lit ''course'', opt_s, ws,
            alts [lit ''about'', lit ''on'', seq [lit ''related'', ws, lit ''to'']], ws,
            Grp 1 (Plus Dot)],
       ''SEARCH_COURSES'', (\<lambda>m. [(''query'', VStr (strip (group m 1)))])),
      (seq [lit ''course'', opt_s, ws,
            Alt (Cat (lit ''with'') (Opt (lit ''out''))) (lit ''having''), ws, lit ''no'', ws,
            lit ''prerequisite'', opt_s],
       ''SEARCH_COURSES'', (\<lambda>m. [(''query'', VStr ''no prerequisites'')]))]"

text \<open>The loop over the rule list: the first pattern found in the question
  answers with confidence 0.85; when none is found the whole (lower-cased)
  question becomes the search text, with confidence 0.5.\<close>

fun first_match :: "pattern list \<Rightarrow> string \<Rightarrow> llm_response" where
  "first_match [] question =
     \<lparr>r_query_type = ''SEARCH_COURSES'', r_parameters = [(''query'', VStr question)],
      r_confidence = 1 / 2\<rparr>"
| "first_match (pat # rest) question =
     (case re_search True (fst pat) question of
        Some m \<Rightarrow>
          \<lparr>r_query_type = fst (snd pat), r_parameters = snd (snd pat) m,
           r_confidence = 17 / 20\<rparr>
      | None \<Rightarrow> first_match rest question)"

text \<open>The pattern that finds the question in the prompt: the word \<open>Question:\<close>,
  optional white space, and a non-empty text between double quotes (group 1).\<close>

definition question_re :: rx where
  "question_re = seq [lit ''Question:'', Star Space, Chr dq, Grp 1 (Plus NotDq), Chr dq]"

definition generate :: "string \<Rightarrow> llm_response" where
  "generate prompt =
     (case re_search False question_re prompt of
        None \<Rightarrow>
          \<lparr>r_query_type = ''SEARCH_COURSES'', r_parameters = [(''query'', VStr [])],
           r_confidence = 3 / 10\<rparr>
      | Some question_match \<Rightarrow>
          (let question = lower (group question_match 1);
               resolved_course = first_name_in COURSE_NAME_MAP question
           in first_match (patterns question resolved_course) question))"

section \<open>LLMInterface\<close>

definition PARSE_SYSTEM_PROMPT :: string where
  "PARSE_SYSTEM_PROMPT = concat (map (\<lambda>l. l @ [nl])
     [''You are a query parser for a university knowledge base. '',
      ''Your task is to analyze natural language questions and extract structured query information.'',
      [],
      ''The knowledge base contains information about:'',
      ''- Departments (CS, MATH, PHYS, EE)'',
      ''- Faculty members and their research areas'',
      ''- Courses with codes like CS101, MATH201, etc.'',
      ''- Prerequisites relationships between courses'',
      [],
      ''Available query types:'',
      ''- GET_COURSE_INFO: Get details about a specific course'',
      ''- GET_FACULTY_INFO: Get details about a faculty member'',
      ''- GET_DEPARTMENT_INFO: Get details about a department'',
      ''- GET_PREREQUISITES: Get direct prerequisites for a course'',
      ''- GET_ALL_PREREQUISITES: Get ALL prerequisites (including transitive) for a course'',
      ''- GET_COURSES_BY_DEPARTMENT: List courses in a department'',
      ''- GET_FACULTY_BY_DEPARTMENT: List faculty in a department'',
      ''- GET_COURSES_TAUGHT_BY: List courses taught by a faculty member'',
      ''- GET_COURSE_INSTRUCTORS: Get who teaches a course'',
      ''- GET_DEPARTMENT_HEAD: Get the head of a department'',
      ''- CAN_TAKE_COURSE: Check if prerequisites are met (needs completed_courses list)'',
      ''- GET_COURSES_REQUIRING: Find courses that require a given course'',
      ''- GET_COURSES_BY_LEVEL: List undergraduate or graduate courses'',
      ''- GET_FACULTY_BY_RESEARCH: Find faculty by research area'',
      ''- SEARCH_COURSES: Search courses by keyword'',
      ''- COUNT_ENTITIES: Count courses, faculty, etc.'',
      ''- COMPARE_COURSES: Compare two courses'',
      [],
      ''Output JSON with:'',
      ''{'',
      ''  '' @ [dq] @ ''query_type'' @ [dq] @ '': '' @ [dq] @ ''<QUERY_TYPE>'' @ [dq] @ '','',
      ''  '' @ [dq] @ ''parameters'' @ [dq] @ '': {<relevant parameters>},'',
      ''  '' @ [dq] @ ''confidence'' @ [dq] @ '': <0.0 to 1.0>'',
      ''}'',
      [],
      ''Parameter examples:'',
      ''- course_code: '' @ [dq] @ ''CS101'' @ [dq] @ '', '' @ [dq] @ ''MATH201'' @ [dq],
      ''- name: '' @ [dq] @ ''Smith'' @ [dq] @ '', '' @ [dq] @ ''Alice Smith'' @ [dq],
      ''- code: '' @ [dq] @ ''CS'' @ [dq] @ '', '' @ [dq] @ ''MATH'' @ [dq] @ '' (department code)'',
      ''- level: '' @ [dq] @ ''undergraduate'' @ [dq] @ '' or '' @ [dq] @ ''graduate'' @ [dq],
      ''- area: '' @ [dq] @ ''Machine Learning'' @ [dq] @ '', '' @ [dq] @ ''AI'' @ [dq],
      ''- completed_courses: ['' @ [dq] @ ''CS101'' @ [dq] @ '', '' @ [dq] @ ''MATH101'' @ [dq] @ '']'',
      ''- query: '' @ [dq] @ ''programming'' @ [dq] @ '' (search term)'',
      ''- course1, course2: for comparing courses''])"

record ParsedQuery =
  original_question :: string
  parsed_type :: QueryType
  parameters :: attrs
  confidence :: rat

definition all_query_types :: "QueryType list" where
  "all_query_types =
     [GET_COURSE_INFO, GET_FACULTY_INFO, GET_DEPARTMENT_INFO, GET_PREREQUISITES,
      GET_ALL_PREREQUISITES, GET_COURSES_BY_DEPARTMENT, GET_FACULTY_BY_DEPARTMENT,
      GET_COURSES_TAUGHT_BY, GET_COURSE_INSTRUCTORS, GET_DEPARTMENT_HEAD, CAN_TAKE_COURSE,
      GET_COURSES_REQUIRING, GET_COURSES_BY_LEVEL, GET_FACULTY_BY_RESEARCH, SEARCH_COURSES,
      COUNT_ENTITIES, COMPARE_COURSES]"

text \<open>\<open>QueryType[name]\<close>; an unknown name raises \<open>KeyError\<close>, which the caller
  turns into \<open>SEARCH_COURSES\<close>.\<close>

definition query_type_of_name :: "string \<Rightarrow> QueryType option" where
  "query_type_of_name name = find (\<lambda>t. query_type_name t = name) all_query_types"

text \<open>\<open>parse_question\<close> with the pattern-based provider.\<close>

definition make_prompt :: "string \<Rightarrow> string" where
  "make_prompt question =
     PARSE_SYSTEM_PROMPT @ [nl, nl] @ ''Question: '' @ [dq] @ question @ [dq] @ [nl, nl]
     @ ''Respond with only the JSON object, no additional text.''"

definition parse_question :: "string \<Rightarrow> ParsedQuery" where
  "parse_question question =
     (let response = generate (make_prompt question)
      in \<lparr>original_question = question,
          parsed_type =
            (case query_type_of_name (r_query_type response) of
               None \<Rightarrow> SEARCH_COURSES
             | Some t \<Rightarrow> t),
          parameters = r_parameters response,
          confidence = r_confidence response\<rparr>)"


subsection \<open>Notions used to state the properties of the reasoner\<close>

text \<open>No node of the graph has an attribute \<open>department\<close>.\<close>

definition no_department_attr :: "graph \<Rightarrow> bool" where
  "no_department_attr g = list_all (\<lambda>na. map_of (snd na) ''department'' = None) (nodes g)"

subsection \<open>Notions used to state the properties of the parser\<close>

text \<open>Patterns every match of which contains a white-space character.\<close>

fun must_space :: "rx \<Rightarrow> bool" where
  "must_space Eps = False"
| "must_space (Chr c) = False"
| "must_space (Cls C) = (C = Space)"
| "must_space (Cat a b) = (must_space a \<or> must_space b)"
| "must_space (Alt a b) = (must_space a \<and> must_space b)"
| "must_space (Opt a) = False"
| "must_space (Star C) = False"
| "must_space (Plus C) = (C = Space)"
| "must_space (Grp i a) = must_space a"
| "must_space Bnd = False"

text \<open>Texts in which no \<open>Q\<close> is followed by \<open>u\<close>, and none ends in \<open>Q\<close>.\<close>

fun no_Qu :: "string \<Rightarrow> bool" where
  "no_Qu [] = True"
| "no_Qu [c] = (c \<noteq> CHR ''Q'')"
| "no_Qu (c # d # r) = ((c = CHR ''Q'' \<longrightarrow> d \<noteq> CHR ''u'') \<and> no_Qu (d # r))"

text \<open>The character before the position reached after reading \<open>u\<close>.\<close>

definition lastp :: "char option \<Rightarrow> string \<Rightarrow> char option" where
  "lastp p u = (if u = [] then p else Some (last u))"

text \<open>No pattern of the rule list is found in the question.\<close>

definition no_pattern_matches :: "string \<Rightarrow> bool" where
  "no_pattern_matches question =
     list_all (\<lambda>pat. re_search True (fst pat) question = None)
       (patterns question (first_name_in COURSE_NAME_MAP question))"

text \<open>Text of ASCII characters, on which the text operations above are those
  of Python.\<close>

definition is_ascii :: "string \<Rightarrow> bool" where
  "is_ascii s = list_all (\<lambda>c. (of_char c :: nat) < 128) s"

text \<open>A course token, by the shape \<open>\w+\d+\<close> of the patterns: at least two word
  characters, the last a digit (letters followed by digits are of this shape).\<close>

definition is_course_token :: "string \<Rightarrow> bool" where
  "is_course_token X = (2 \<le> length X \<and> list_all is_word X \<and> is_digit (last X))"

section \<open>Properties of the graph store\<close>

subsection \<open>The traversal loop\<close>

lemma foldl_visit_edge:
  "foldl visit_edge (seen, q) es = (seen @ discovered seen es, q @ discovered seen es)"
  by (induction es arbitrary: seen q) (simp_all add: visit_edge_def)

lemma set_discovered:
  "set (discovered seen es) =
     {snd (fst e) | e. e \<in> set es \<and> snd e = prerequisite} - set seen"
  by (induction es arbitrary: seen) auto

lemma distinct_discovered: "distinct (discovered seen es)"
  by (induction es arbitrary: seen) (auto simp: set_discovered)

lemma set_discovered_out:
  "set (discovered seen (out_edges g u)) = set (prereq_targets g u) - set seen"
  by (force simp: set_discovered prereq_targets_def)

lemma bfs_loop_Nil: "bfs_loop g seen [] = Some seen"
  by (subst bfs_loop.simps) simp

lemma bfs_loop_Cons:
  "bfs_loop g seen (c # rest) =
     bfs_loop g (seen @ discovered seen (out_edges g c)) (rest @ discovered seen (out_edges g c))"
  by (subst bfs_loop.simps) (simp add: foldl_visit_edge)

lemma prereq_targets_sub: "set (prereq_targets g u) \<subseteq> all_targets g"
  by (auto simp: prereq_targets_def out_edges_def all_targets_def)

lemma bfs_loop_terminates: "\<exists>r. bfs_loop g seen queue = Some r"
proof (induction "card (all_targets g - set seen) + length queue" arbitrary: seen queue rule: less_induct)
  case less
  show ?case
  proof (cases queue)
    case Nil
    then show ?thesis by (simp add: bfs_loop_Nil)
  next
    case (Cons c rest)
    let ?new = "discovered seen (out_edges g c)"
    have fin: "finite (all_targets g)" by (simp add: all_targets_def)
    have sub: "set ?new \<subseteq> all_targets g - set seen"
      using prereq_targets_sub[of g c] by (auto simp: set_discovered_out)
    have "all_targets g - set (seen @ ?new) = (all_targets g - set seen) - set ?new" by auto
    then have "card (all_targets g - set (seen @ ?new)) = card (all_targets g - set seen) - card (set ?new)"
      using sub fin by (simp add: card_Diff_subset)
    moreover have "card (set ?new) = length ?new"
      by (simp add: distinct_card distinct_discovered)
    moreover have "card (set ?new) \<le> card (all_targets g - set seen)"
      using sub fin by (simp add: card_mono)
    ultimately have "card (all_targets g - set (seen @ ?new)) + length (rest @ ?new)
        < card (all_targets g - set seen) + length queue"
      using Cons by simp
    from less[OF this] show ?thesis using Cons by (simp add: bfs_loop_Cons)
  qed
qed


lemma processed_closure:
  assumes "processed g seen queue" and "(s, v) \<in> (prereq_rel g)\<^sup>+" and "s \<in> set seen"
  shows "v \<in> set seen \<or> (\<exists>q \<in> set queue. (q, v) \<in> (prereq_rel g)\<^sup>+)"
  using assms(2,3)
proof (induction rule: converse_trancl_induct)
  case (base y)
  then show ?case using assms(1) by (auto simp: processed_def prereq_rel_def)
next
  case (step y z)
  show ?case
  proof (cases "y \<in> set queue")
    case True
    with step(1,2) show ?thesis by (meson trancl_into_trancl2)
  next
    case False
    with step(1,4) assms(1) have "z \<in> set seen" by (auto simp: processed_def prereq_rel_def)
    with step(3) show ?thesis by simp
  qed
qed

lemma bfs_loop_reach:
  "processed g seen queue \<Longrightarrow>
   \<exists>r. bfs_loop g seen queue = Some r \<and>
       set r = set seen \<union> {v. \<exists>q \<in> set queue. (q, v) \<in> (prereq_rel g)\<^sup>+}"
proof (induction "card (all_targets g - set seen) + length queue" arbitrary: seen queue rule: less_induct)
  case less
  show ?case
  proof (cases queue)
    case Nil
    then show ?thesis by (simp add: bfs_loop_Nil)
  next
    case (Cons c rest)
    let ?new = "discovered seen (out_edges g c)"
    let ?seen' = "seen @ ?new" and ?queue' = "rest @ ?new"
    have fin: "finite (all_targets g)" by (simp add: all_targets_def)
    have sub: "set ?new \<subseteq> all_targets g - set seen"
      using prereq_targets_sub[of g c] by (auto simp: set_discovered_out)
    have "all_targets g - set ?seen' = (all_targets g - set seen) - set ?new" by auto
    then have "card (all_targets g - set ?seen') = card (all_targets g - set seen) - card (set ?new)"
      using sub fin by (simp add: card_Diff_subset)
    moreover have "card (set ?new) = length ?new"
      by (simp add: distinct_card distinct_discovered)
    moreover have "card (set ?new) \<le> card (all_targets g - set seen)"
      using sub fin by (simp add: card_mono)
    ultimately have m: "card (all_targets g - set ?seen') + length ?queue'
        < card (all_targets g - set seen) + length queue"
      using Cons by simp
    have succ_c: "set (prereq_targets g c) \<subseteq> set ?seen'"
      by (auto simp: set_discovered_out)
    have inv: "processed g ?seen' ?queue'"
      unfolding processed_def
    proof (intro ballI impI)
      fix u assume u: "u \<in> set ?seen'" "u \<notin> set ?queue'"
      then have us: "u \<in> set seen" "u \<notin> set rest" by auto
      show "set (prereq_targets g u) \<subseteq> set ?seen'"
      proof (cases "u = c")
        case True then show ?thesis using succ_c by simp
      next
        case False
        with us Cons have "u \<notin> set queue" by simp
        with less.prems us(1) have "set (prereq_targets g u) \<subseteq> set seen"
          by (auto simp: processed_def)
        then show ?thesis by auto
      qed
    qed
    from less.hyps[OF m inv] obtain r where
      r: "bfs_loop g ?seen' ?queue' = Some r"
         "set r = set ?seen' \<union> {v. \<exists>q \<in> set ?queue'. (q, v) \<in> (prereq_rel g)\<^sup>+}"
      by blast
    have new_c: "\<And>n. n \<in> set ?new \<Longrightarrow> (c, n) \<in> prereq_rel g"
      by (auto simp: set_discovered_out prereq_rel_def)
    have "set r = set seen \<union> {v. \<exists>q \<in> set queue. (q, v) \<in> (prereq_rel g)\<^sup>+}"
    proof (intro set_eqI iffI)
      fix v assume "v \<in> set r"
      with r(2) consider "v \<in> set seen" | "v \<in> set ?new"
        | q where "q \<in> set rest" "(q, v) \<in> (prereq_rel g)\<^sup>+"
        | n where "n \<in> set ?new" "(n, v) \<in> (prereq_rel g)\<^sup>+"
        by auto
      then show "v \<in> set seen \<union> {v. \<exists>q \<in> set queue. (q, v) \<in> (prereq_rel g)\<^sup>+}"
      proof cases
        case 1 then show ?thesis by simp
      next
        case 2 with new_c have "(c, v) \<in> (prereq_rel g)\<^sup>+" by auto
        then show ?thesis using Cons by auto
      next
        case 3 then show ?thesis using Cons by auto
      next
        case 4
        with new_c have "(c, v) \<in> (prereq_rel g)\<^sup>+" by (meson trancl_into_trancl2)
        then show ?thesis using Cons by auto
      qed
    next
      fix v assume "v \<in> set seen \<union> {v. \<exists>q \<in> set queue. (q, v) \<in> (prereq_rel g)\<^sup>+}"
      then consider "v \<in> set seen" | q where "q \<in> set rest" "(q, v) \<in> (prereq_rel g)\<^sup>+"
        | "(c, v) \<in> (prereq_rel g)\<^sup>+"
        using Cons by auto
      then show "v \<in> set r"
      proof cases
        case 1 then show ?thesis using r(2) by simp
      next
        case 2 then show ?thesis using r(2) by auto
      next
        case 3
        then have "(c, v) \<in> prereq_rel g \<or> (\<exists>z. (c, z) \<in> prereq_rel g \<and> (z, v) \<in> (prereq_rel g)\<^sup>+)"
          by (meson converse_tranclE)
        then show ?thesis
        proof
          assume "(c, v) \<in> prereq_rel g"
          then have "v \<in> set ?seen'" using succ_c by (auto simp: prereq_rel_def)
          then show ?thesis using r(2) by blast
        next
          assume "\<exists>z. (c, z) \<in> prereq_rel g \<and> (z, v) \<in> (prereq_rel g)\<^sup>+"
          then obtain z where z: "(c, z) \<in> prereq_rel g" "(z, v) \<in> (prereq_rel g)\<^sup>+" by blast
          then have "z \<in> set ?seen'" using succ_c by (auto simp: prereq_rel_def)
          from processed_closure[OF inv z(2) this] show ?thesis using r(2) by blast
        qed
      qed
    qed
    with r(1) show ?thesis using Cons by (simp add: bfs_loop_Cons)
  qed
qed


lemma nid_get_node: "get_node g n = Some x \<Longrightarrow> nid x = n \<and> has_node g n"
  by (auto simp: get_node_def has_node_def split: option.splits)

lemma get_node_None: "(get_node g n = None) = (\<not> has_node g n)"
  by (auto simp: get_node_def has_node_def split: option.splits)

lemma ids_map_filter_get_node:
  "map nid (List.map_filter (get_node g) r) = filter (has_node g) r"
proof (induction r)
  case Nil
  show ?case by (simp add: List.map_filter_def)
next
  case (Cons a r)
  then show ?case
    by (auto simp: List.map_filter_simps get_node_def has_node_def split: option.splits)
qed

lemma ids_edge_filter:
  "map nid (List.map_filter (\<lambda>e. if snd e = prerequisite then get_node g (snd (fst e)) else None) es)
   = filter (has_node g) (map (\<lambda>e. snd (fst e)) (filter (\<lambda>e. snd e = prerequisite) es))"
proof (induction es)
  case Nil
  show ?case by (simp add: List.map_filter_def)
next
  case (Cons a es)
  then show ?case
    by (auto simp: List.map_filter_simps get_node_def has_node_def split: option.splits)
qed

lemma set_map_filter_get_node:
  "set (map nid (List.map_filter (get_node g) r)) = {v \<in> set r. has_node g v}"
  by (simp add: ids_map_filter_get_node)

lemma get_all_prerequisites_reach:
  "\<exists>r. get_all_prerequisites g c = Some r \<and>
       set (map nid r) = {v. (c, v) \<in> (prereq_rel g)\<^sup>+ \<and> has_node g v}"
proof -
  have "processed g [] [c]" by (simp add: processed_def)
  from bfs_loop_reach[OF this] obtain s where
    s: "bfs_loop g [] [c] = Some s" "set s = {v. (c, v) \<in> (prereq_rel g)\<^sup>+}" by auto
  have "get_all_prerequisites g c = Some (List.map_filter (get_node g) s)"
    by (simp add: get_all_prerequisites_def s(1))
  moreover have "set (map nid (List.map_filter (get_node g) s)) = {v. (c, v) \<in> (prereq_rel g)\<^sup>+ \<and> has_node g v}"
    unfolding set_map_filter_get_node s(2) by auto
  ultimately show ?thesis by blast
qed

lemma ids_get_prerequisites:
  "map nid (get_prerequisites g c) = filter (has_node g) (prereq_targets g c)"
  by (simp add: get_prerequisites_def prereq_targets_def ids_edge_filter)


lemma out_edges_absent:
  "\<not> has_node g n \<Longrightarrow> \<forall>c \<in> set n. \<not> has_node g [c] \<Longrightarrow> out_edges g n = []"
  by (simp add: out_edges_def nbunch_iter_def filter_empty_conv)
lemma in_edges_absent:
  "\<not> has_node g n \<Longrightarrow> \<forall>c \<in> set n. \<not> has_node g [c] \<Longrightarrow> in_edges g n = []"
  by (simp add: in_edges_def nbunch_iter_def filter_empty_conv)


subsection \<open>Loading\<close>

lemma foldl_preserves:
  assumes "\<And>s x. P s \<Longrightarrow> P (f s x)" and "P s"
  shows "P (foldl f s xs)"
  using assms(2) by (induction xs arbitrary: s) (simp_all add: assms(1))

lemma foldl_establishes:
  assumes "x \<in> set xs" and "\<And>s. Q (f s x)" and "\<And>s y. Q s \<Longrightarrow> Q (f s y)"
  shows "Q (foldl f s xs)"
  using assms(1)
proof (induction xs arbitrary: s)
  case Nil
  then show ?case by simp
next
  case (Cons a xs)
  show ?case
  proof (cases "x = a")
    case True
    have "Q (f s a)" using True assms(2) by simp
    then show ?thesis by (simp add: foldl_preserves[where P = Q, OF assms(3)])
  next
    case False
    with Cons show ?thesis by simp
  qed
qed

lemma has_node_keys: "has_node g n = (n \<in> set (map fst (nodes g)))"
  by (simp add: has_node_def map_of_eq_None_iff)

lemma has_node_add_node: "has_node (add_node g n a) m = (m = n \<or> has_node g m)"
proof (cases "map_of (nodes g) n")
  case None
  then show ?thesis by (auto simp: has_node_keys add_node_def)
next
  case (Some old)
  then have "n \<in> set (map fst (nodes g))"
    by (metis map_of_eq_None_iff option.distinct(1) set_map)
  with Some show ?thesis by (auto simp: has_node_keys add_node_def update_keys)
qed

lemma has_node_add_edge: "has_node (add_edge g u v r) m = (m = u \<or> m = v \<or> has_node g m)"
  by (auto simp: has_node_keys add_edge_def Let_def)

lemma edges_add_node: "edges (add_node g n a) = edges g"
  by (simp add: add_node_def split: option.splits)

lemma rel_of_add_node: "rel_of (add_node g n a) = rel_of g"
  by (simp add: rel_of_def edges_add_node fun_eq_iff)

lemma rel_of_add_edge:
  "rel_of (add_edge g u v r) u' v' = (if u' = u \<and> v' = v then Some r else rel_of g u' v')"
  by (simp add: rel_of_def add_edge_def Let_def update_conv')

lemma distinct_edges_add_edge:
  "distinct (map fst (edges g)) \<Longrightarrow> distinct (map fst (edges (add_edge g u v r)))"
  by (simp add: add_edge_def Let_def distinct_update)

lemma distinct_edges_add_node:
  "distinct (map fst (edges g)) \<Longrightarrow> distinct (map fst (edges (add_node g n a)))"
  by (simp add: edges_add_node)


lemma load_prereq_belongs:
  "rel_of (load_prereq g p) u v = Some belongs_to \<Longrightarrow> rel_of g u v = Some belongs_to"
  by (auto simp: load_prereq_def rel_of_add_edge split: if_splits)

lemma foldl_load_prereq_belongs:
  "rel_of (foldl load_prereq g ps) u v = Some belongs_to \<Longrightarrow> rel_of g u v = Some belongs_to"
  by (induction ps arbitrary: g) (auto dest: load_prereq_belongs)

lemma foldl_teaches_belongs:
  "rel_of (foldl (\<lambda>g' i. add_edge g' i cid teaches) g is) u v = Some belongs_to
   \<Longrightarrow> rel_of g u v = Some belongs_to"
proof (induction "is" arbitrary: g)
  case Nil
  then show ?case by simp
next
  case (Cons a "is")
  from Cons.prems have "rel_of (add_edge g a cid teaches) u v = Some belongs_to"
    by (simp add: Cons.IH)
  then show ?case by (simp add: rel_of_add_edge split: if_splits)
qed

lemma load_course_belongs:
  "rel_of (load_course g c) u v = Some belongs_to \<Longrightarrow>
   u = c_id c \<or> rel_of g u v = Some belongs_to"
  unfolding load_course_def
  by (drule foldl_teaches_belongs) (auto simp: rel_of_add_edge rel_of_add_node split: if_splits)

lemma foldl_load_course_belongs:
  "rel_of (foldl load_course g cs) u v = Some belongs_to \<Longrightarrow>
   u \<in> set (map c_id cs) \<or> rel_of g u v = Some belongs_to"
  by (induction cs arbitrary: g) (auto dest: load_course_belongs)

lemma load_head_belongs:
  "rel_of (load_head g d) u v = Some belongs_to \<Longrightarrow>
   rel_of g u v = Some belongs_to \<and> \<not> (d_faculty_head d = Some u \<and> d_id d = v)"
  by (auto simp: load_head_def rel_of_add_edge split: option.splits if_splits)

lemma foldl_load_head_belongs:
  "rel_of (foldl load_head g ds) u v = Some belongs_to \<Longrightarrow>
   rel_of g u v = Some belongs_to \<and> (\<forall>d \<in> set ds. \<not> (d_faculty_head d = Some u \<and> d_id d = v))"
  by (induction ds arbitrary: g) (auto dest: load_head_belongs)

lemma load_faculty_belongs:
  "rel_of (load_faculty g f) u v = Some belongs_to \<Longrightarrow>
   (u = f_id f \<and> v = f_department f) \<or> rel_of g u v = Some belongs_to"
  by (auto simp: load_faculty_def rel_of_add_edge rel_of_add_node split: if_splits)

lemma foldl_load_faculty_belongs:
  "rel_of (foldl load_faculty g fs) u v = Some belongs_to \<Longrightarrow>
   (\<exists>f \<in> set fs. u = f_id f \<and> v = f_department f) \<or> rel_of g u v = Some belongs_to"
  by (induction fs arbitrary: g) (auto dest: load_faculty_belongs)

lemma foldl_load_department_edges: "edges (foldl load_department g ds) = edges g"
  by (induction ds arbitrary: g) (simp_all add: load_department_def edges_add_node)

lemma belongs_to_origin:
  assumes "rel_of (build_graph doc) u v = Some belongs_to"
  shows "u \<in> set (map c_id (courses doc)) \<or>
         ((\<exists>f \<in> set (faculty doc). u = f_id f \<and> v = f_department f) \<and>
          (\<forall>d \<in> set (departments doc). \<not> (d_faculty_head d = Some u \<and> d_id d = v)))"
proof -
  let ?g1 = "foldl load_department empty_graph (departments doc)"
  let ?g2 = "foldl load_faculty ?g1 (faculty doc)"
  let ?g3 = "foldl load_head ?g2 (departments doc)"
  let ?g4 = "foldl load_course ?g3 (courses doc)"
  from assms have "rel_of ?g4 u v = Some belongs_to"
    unfolding build_graph_def by (rule foldl_load_prereq_belongs)
  then have "u \<in> set (map c_id (courses doc)) \<or> rel_of ?g3 u v = Some belongs_to"
    by (rule foldl_load_course_belongs)
  moreover
  { assume "rel_of ?g3 u v = Some belongs_to"
    then have h: "rel_of ?g2 u v = Some belongs_to"
       "\<forall>d \<in> set (departments doc). \<not> (d_faculty_head d = Some u \<and> d_id d = v)"
      by (auto dest: foldl_load_head_belongs)
    have "rel_of ?g1 u v = None"
      by (simp add: rel_of_def foldl_load_department_edges empty_graph_def)
    with foldl_load_faculty_belongs[OF h(1)]
    have "\<exists>f \<in> set (faculty doc). u = f_id f \<and> v = f_department f" by auto
    with h(2) have "(\<exists>f \<in> set (faculty doc). u = f_id f \<and> v = f_department f) \<and>
          (\<forall>d \<in> set (departments doc). \<not> (d_faculty_head d = Some u \<and> d_id d = v))" by blast }
  ultimately show ?thesis by blast
qed

lemma has_node_load_department: "has_node g m \<Longrightarrow> has_node (load_department g d) m"
  by (simp add: load_department_def has_node_add_node)
lemma has_node_load_faculty: "has_node g m \<Longrightarrow> has_node (load_faculty g f) m"
  by (simp add: load_faculty_def has_node_add_node has_node_add_edge)
lemma has_node_load_head: "has_node g m \<Longrightarrow> has_node (load_head g d) m"
  by (simp add: load_head_def has_node_add_edge split: option.splits)
lemma has_node_load_course: "has_node g m \<Longrightarrow> has_node (load_course g c) m"
  unfolding load_course_def
  by (rule foldl_preserves) (simp_all add: has_node_add_node has_node_add_edge)
lemma has_node_load_prereq: "has_node g m \<Longrightarrow> has_node (load_prereq g p) m"
  by (simp add: load_prereq_def has_node_add_edge)

lemma has_node_build_head:
  assumes "d \<in> set (departments doc)" and "d_faculty_head d = Some h"
  shows "has_node (build_graph doc) h"
  unfolding build_graph_def
  apply (rule foldl_preserves[where P = "\<lambda>g. has_node g h"], erule has_node_load_prereq)
  apply (rule foldl_preserves[where P = "\<lambda>g. has_node g h"], erule has_node_load_course)
  apply (rule foldl_establishes[where Q = "\<lambda>g. has_node g h", OF assms(1)])
   apply (simp add: load_head_def assms(2) has_node_add_edge)
  apply (erule has_node_load_head)
  done

lemma has_node_build_department:
  assumes "d \<in> set (departments doc)"
  shows "has_node (build_graph doc) (d_id d)"
  unfolding build_graph_def
  apply (rule foldl_preserves[where P = "\<lambda>g. has_node g (d_id d)"], erule has_node_load_prereq)
  apply (rule foldl_preserves[where P = "\<lambda>g. has_node g (d_id d)"], erule has_node_load_course)
  apply (rule foldl_preserves[where P = "\<lambda>g. has_node g (d_id d)"], erule has_node_load_head)
  apply (rule foldl_preserves[where P = "\<lambda>g. has_node g (d_id d)"], erule has_node_load_faculty)
  apply (rule foldl_establishes[where Q = "\<lambda>g. has_node g (d_id d)", OF assms(1)])
   apply (simp add: load_department_def has_node_add_node)
  apply (erule has_node_load_department)
  done

lemma distinct_edges_build: "distinct (map fst (edges (build_graph doc)))"
  unfolding build_graph_def
  apply (rule foldl_preserves[where P = "\<lambda>g. distinct (map fst (edges g))"])
   apply (simp add: load_prereq_def distinct_edges_add_edge)
  apply (rule foldl_preserves[where P = "\<lambda>g. distinct (map fst (edges g))"])
   apply (unfold load_course_def)[1]
   apply (rule foldl_preserves[where P = "\<lambda>g. distinct (map fst (edges g))"])
    apply (simp add: distinct_edges_add_edge)
   apply (simp add: distinct_edges_add_edge edges_add_node)
  apply (rule foldl_preserves[where P = "\<lambda>g. distinct (map fst (edges g))"])
   apply (simp add: load_head_def distinct_edges_add_edge split: option.splits)
  apply (rule foldl_preserves[where P = "\<lambda>g. distinct (map fst (edges g))"])
   apply (simp add: load_faculty_def distinct_edges_add_edge edges_add_node)
  apply (simp add: foldl_load_department_edges empty_graph_def)
  done

lemma out_edges_node: "has_node g n \<Longrightarrow> out_edges g n = filter (\<lambda>e. fst (fst e) = n) (edges g)"
  by (simp add: out_edges_def nbunch_iter_def)
lemma in_edges_node: "has_node g n \<Longrightarrow> in_edges g n = filter (\<lambda>e. snd (fst e) = n) (edges g)"
  by (simp add: in_edges_def nbunch_iter_def)

lemma edge_rel_of:
  "distinct (map fst (edges g)) \<Longrightarrow> ((u, v), r) \<in> set (edges g) \<Longrightarrow> rel_of g u v = Some r"
  by (simp add: rel_of_def)



section \<open>Properties of the reasoner\<close>

lemma update_elem:
  "x \<in> set (AList.update k v al) \<Longrightarrow> x = (k, v) \<or> x \<in> set al"
  by (induction al) (auto split: if_splits)

lemma dict_update_None:
  "map_of old k = None \<Longrightarrow> map_of new k = None \<Longrightarrow> map_of (dict_update old new) k = None"
  unfolding dict_update_def
proof (induction new arbitrary: old)
  case Nil
  then show ?case by simp
next
  case (Cons a new)
  obtain k' v' where a: "a = (k', v')" by (cases a)
  with Cons.prems have "k' \<noteq> k" "map_of new k = None" by (auto split: if_splits)
  with Cons.prems(1) have "map_of (AList.update k' v' old) k = None"
    by (simp add: update_conv')
  from Cons.IH[OF this \<open>map_of new k = None\<close>] a show ?case by simp
qed

lemma no_department_add_node:
  assumes "no_department_attr g" and "map_of a ''department'' = None"
  shows "no_department_attr (add_node g n a)"
proof (cases "map_of (nodes g) n")
  case None
  with assms show ?thesis by (simp add: no_department_attr_def add_node_def)
next
  case (Some old)
  then have "(n, old) \<in> set (nodes g)" by (rule map_of_SomeD)
  with assms(1) have "map_of old ''department'' = None"
    by (auto simp: no_department_attr_def list_all_iff)
  from dict_update_None[OF this assms(2)] assms(1) Some show ?thesis
    by (auto simp: no_department_attr_def add_node_def list_all_iff dest!: update_elem)
qed

lemma no_department_add_edge:
  "no_department_attr g \<Longrightarrow> no_department_attr (add_edge g u v r)"
  by (simp add: no_department_attr_def add_edge_def Let_def)

lemma no_department_build: "no_department_attr (build_graph doc)"
  unfolding build_graph_def
  apply (rule foldl_preserves[where P = no_department_attr])
   apply (simp add: load_prereq_def no_department_add_edge)
  apply (rule foldl_preserves[where P = no_department_attr])
   apply (unfold load_course_def)[1]
   apply (rule foldl_preserves[where P = no_department_attr])
    apply (simp add: no_department_add_edge)
   apply (simp add: no_department_add_edge no_department_add_node)
  apply (rule foldl_preserves[where P = no_department_attr])
   apply (simp add: load_head_def no_department_add_edge split: option.splits)
  apply (rule foldl_preserves[where P = no_department_attr])
   apply (simp add: load_faculty_def no_department_add_edge no_department_add_node)
  apply (rule foldl_preserves[where P = no_department_attr])
   apply (simp add: load_department_def no_department_add_node)
  apply (simp add: no_department_attr_def empty_graph_def)
  done

lemma find_by_code_member: "find_by_code cs code = Inr (Some c) \<Longrightarrow> c \<in> set cs"
  by (induction cs) (auto split: sum.splits if_splits)

lemma course_no_department:
  assumes "no_department_attr g" and "get_course_by_code g code = Inr (Some c)"
  shows "map_of (nattrs c) ''department'' = None"
proof -
  from find_by_code_member[OF assms(2)[unfolded get_course_by_code_def]]
  have "c \<in> set (get_all_courses g)" .
  then obtain n a where "(n, a) \<in> set (nodes g)" "c = \<lparr>nid = n, nattrs = a\<rparr>"
    by (auto simp: get_all_courses_def get_all_nodes_by_type_def)
  with assms(1) show ?thesis by (auto simp: no_department_attr_def list_all_iff)
qed

text \<open>On a loaded graph every comparison that succeeds reports the same department.\<close>

lemma same_department_always_true:
  assumes "rule_compare_courses (build_graph doc) params = Some (Inr r)"
    and "answer r = Some (AnswerComparison c)"
  shows "same_department c"
  using assms course_no_department[OF no_department_build, of doc]
  by (auto simp: rule_compare_courses_def Let_def course_not_found_def
      split: sum.splits option.splits)

section \<open>Properties of the parser\<close>

lemma many0_suffix: "st' \<in> set (many0 C (p, s)) \<Longrightarrow> \<exists>u. s = u @ snd st'"
proof (induction s arbitrary: p)
  case Nil
  then show ?case by simp
next
  case (Cons a s)
  then show ?case by (fastforce split: if_splits)
qed

lemma many1_suffix: "st' \<in> set (many1 C (p, s)) \<Longrightarrow> \<exists>u. s = u @ snd st'"
  by (cases s) (auto simp: many1_def split: if_splits dest!: many0_suffix intro: exI[of _ "_ # _"])

lemma rmatch_suffix:
  "m \<in> set (rmatch ic r (p, s) k) \<Longrightarrow> \<exists>u. s = u @ snd (fst m)"
proof (induction r arbitrary: p s k m)
  case (Cat a b)
  then obtain m1 where m1: "m1 \<in> set (rmatch ic a (p, s) k)"
      "m \<in> set (rmatch ic b (fst m1) (snd m1))" by auto
  from Cat.IH(1)[OF m1(1)] obtain u where u: "s = u @ snd (fst m1)" by blast
  from Cat.IH(2)[of m "fst (fst m1)" "snd (fst m1)" "snd m1"] m1(2)
  obtain v where "snd (fst m1) = v @ snd (fst m)" by auto
  with u show ?case by auto
next
  case (Star C)
  then show ?case by (auto dest: many0_suffix)
next
  case (Plus C)
  then show ?case by (auto dest: many1_suffix)
qed (auto split: list.splits if_splits)

lemma must_space_no_match:
  "must_space r \<Longrightarrow> \<forall>c \<in> set s. \<not> is_space c \<Longrightarrow> rmatch ic r (p, s) k = []"
proof (induction r arbitrary: p s k)
  case (Cat a b)
  show ?case
  proof (cases "must_space a")
    case True
    with Cat show ?thesis by simp
  next
    case False
    with Cat.prems have b: "must_space b" by simp
    have "rmatch ic b (fst m) (snd m) = []" if "m \<in> set (rmatch ic a (p, s) k)" for m
    proof -
      from rmatch_suffix[OF that] obtain u where "s = u @ snd (fst m)" by blast
      with Cat.prems(2) have "\<forall>c \<in> set (snd (fst m)). \<not> is_space c" by auto
      from Cat.IH(2)[OF b this, of "fst (fst m)" "snd m"] show ?thesis by simp
    qed
    then show ?thesis by simp
  qed
next
  case (Plus C)
  then show ?case by (cases s) (auto simp: many1_def)
next
  case (Cls C)
  then show ?case by (cases s) auto
qed auto

lemma must_space_search_None:
  "must_space r \<Longrightarrow> \<forall>c \<in> set s. \<not> is_space c \<Longrightarrow> search_from ic r p s = None"
  by (induction s arbitrary: p) (simp_all add: must_space_no_match)

lemma question_re_first:
  "c \<noteq> CHR ''Q'' \<Longrightarrow> rmatch False question_re (p, c # s) k = []"
  by (simp add: question_re_def seq_def lit_def)

lemma question_re_second:
  "d \<noteq> CHR ''u'' \<Longrightarrow> rmatch False question_re (p, c # d # s) k = []"
  by (simp add: question_re_def seq_def lit_def)

lemma search_skip:
  "no_Qu u \<Longrightarrow> v \<noteq> [] \<Longrightarrow> hd v \<noteq> CHR ''u'' \<Longrightarrow>
   \<exists>p'. search_from False question_re p (u @ v) = search_from False question_re p' v"
proof (induction u arbitrary: p rule: no_Qu.induct)
  case 1
  then show ?case by auto
next
  case (2 c)
  then show ?case by (cases v) (auto simp: question_re_first)
next
  case (3 c d r)
  have "rmatch False question_re (p, c # d # r @ v) [] = []"
    using 3(2) by (cases "c = CHR ''Q''") (simp_all add: question_re_first question_re_second)
  then have "search_from False question_re p ((c # d # r) @ v)
    = search_from False question_re (Some c) ((d # r) @ v)" by simp
  with 3(1)[of "Some c"] 3(2,3,4) show ?case by auto
qed

lemma no_Qu_prompt: "no_Qu (PARSE_SYSTEM_PROMPT @ [nl, nl])"
  by (simp add: PARSE_SYSTEM_PROMPT_def nl_def dq_def)

lemma many0_longest:
  "\<forall>c \<in> set u. in_cls C c \<Longrightarrow> \<not> in_cls C x \<Longrightarrow>
   \<exists>rest. many0 C (p, u @ x # t) = (lastp p u, x # t) # rest"
proof (induction u arbitrary: p)
  case Nil
  then show ?case by (simp add: lastp_def)
next
  case (Cons a u)
  from Cons.IH[of "Some a"] Cons.prems obtain rest where
    "many0 C (Some a, u @ x # t) = (lastp (Some a) u, x # t) # rest" by auto
  moreover have "lastp (Some a) u = lastp p (a # u)" by (simp add: lastp_def)
  ultimately show ?case using Cons.prems by simp
qed

lemma many1_longest:
  "u \<noteq> [] \<Longrightarrow> \<forall>c \<in> set u. in_cls C c \<Longrightarrow> \<not> in_cls C x \<Longrightarrow>
   \<exists>rest. many1 C (p, u @ x # t) = (Some (last u), x # t) # rest"
proof (cases u)
  case Nil
  assume "u \<noteq> []" with Nil show ?thesis by simp
next
  case (Cons a u')
  assume a: "\<forall>c \<in> set u. in_cls C c" "\<not> in_cls C x"
  from many0_longest[of u' C x "Some a" t] a Cons obtain rest where
    "many0 C (Some a, u' @ x # t) = (lastp (Some a) u', x # t) # rest" by auto
  then show ?thesis using Cons a by (auto simp: many1_def lastp_def)
qed

text \<open>The quoted text: group 1 and the closing quote.\<close>

lemma quoted_match:
  assumes "u \<noteq> []" and "dq \<notin> set u"
  shows "\<exists>rest. rmatch False (Cat (Grp 1 (Plus NotDq)) (Cat (Chr dq) Eps)) (p, u @ dq # t) k
           = ((Some dq, t), AList.update 1 u k) # rest"
proof -
  from many1_longest[OF assms(1), of NotDq dq p t] assms(2) obtain rest where
    r: "many1 NotDq (p, u @ dq # t) = (Some (last u), dq # t) # rest" by auto
  show ?thesis by (simp add: r)
qed

lemma question_re_at:
  "rmatch False question_re (p, ''Question: '' @ dq # s) k
     = rmatch False (Cat (Grp 1 (Plus NotDq)) (Cat (Chr dq) Eps)) (Some dq, s) k"
  by (simp add: question_re_def seq_def lit_def dq_def is_space_def)

lemma question_found:
  assumes "u \<noteq> []" and "dq \<notin> set u"
  shows "search_from False question_re p (''Question: '' @ dq # u @ dq # t) = Some [(1, u)]"
proof -
  from quoted_match[OF assms, of "Some dq" t "[]"] obtain rest where
    r: "rmatch False (Cat (Grp 1 (Plus NotDq)) (Cat (Chr dq) Eps)) (Some dq, u @ dq # t) []
       = ((Some dq, t), AList.update 1 u []) # rest"
    by blast
  have "rmatch False question_re (p, ''Question: '' @ dq # u @ dq # t) []
       = ((Some dq, t), [(1, u)]) # rest"
    unfolding question_re_at r by simp
  then have "rmatch False question_re (p, CHR ''Q'' # (''uestion: '' @ dq # u @ dq # t)) []
       = ((Some dq, t), [(1, u)]) # rest"
    by simp
  then have "search_from False question_re p (CHR ''Q'' # (''uestion: '' @ dq # u @ dq # t))
       = Some [(1, u)]"
    by (simp only: search_from.simps list.case snd_conv)
  then show ?thesis by simp
qed

lemma question_split:
  assumes "q \<noteq> []" and "hd q \<noteq> dq"
  shows "\<exists>u t. q @ dq # s = u @ dq # t \<and> u = takeWhile (\<lambda>c. c \<noteq> dq) q \<and> u \<noteq> [] \<and> dq \<notin> set u"
proof -
  let ?u = "takeWhile (\<lambda>c. c \<noteq> dq) q"
  let ?d = "dropWhile (\<lambda>c. c \<noteq> dq) q"
  obtain a q' where q: "q = a # q'" using assms(1) by (cases q) auto
  with assms(2) have "?u = a # takeWhile (\<lambda>c. c \<noteq> dq) q'" by simp
  then have u: "?u \<noteq> []" by simp
  have n: "dq \<notin> set ?u"
  proof
    assume "dq \<in> set ?u"
    from set_takeWhileD[OF this] show False by simp
  qed
  have "\<exists>t. ?d @ dq # s = dq # t"
  proof (cases ?d)
    case Nil
    have "[] @ dq # s = dq # s" by simp
    then show ?thesis unfolding Nil by blast
  next
    case (Cons b d)
    then have "?d \<noteq> []" by simp
    from hd_dropWhile[OF this] have "hd ?d = dq" by simp
    with Cons have "b = dq" by simp
    then have "(b # d) @ dq # s = dq # (d @ dq # s)" by simp
    then show ?thesis unfolding Cons by blast
  qed
  then obtain t where t: "?d @ dq # s = dq # t" by blast
  have "q @ dq # s = (?u @ ?d) @ dq # s" by simp
  also have "\<dots> = ?u @ (?d @ dq # s)" by (simp only: append_assoc)
  also have "\<dots> = ?u @ dq # t" by (simp only: t)
  finally have "q @ dq # s = ?u @ dq # t" .
  with u n show ?thesis by blast
qed

lemma prompt_question:
  assumes "q \<noteq> []" and "hd q \<noteq> dq"
  shows "re_search False question_re (make_prompt q) = Some [(1, takeWhile (\<lambda>c. c \<noteq> dq) q)]"
proof -
  let ?tail = "[nl, nl] @ ''Respond with only the JSON object, no additional text.''"
  from question_split[OF assms, of ?tail] obtain t where
    t: "q @ dq # ?tail = takeWhile (\<lambda>c. c \<noteq> dq) q @ dq # t"
    and u: "takeWhile (\<lambda>c. c \<noteq> dq) q \<noteq> []" "dq \<notin> set (takeWhile (\<lambda>c. c \<noteq> dq) q)"
    by blast
  let ?v = "''Question: '' @ dq # q @ dq # ?tail"
  have mp: "make_prompt q = (PARSE_SYSTEM_PROMPT @ [nl, nl]) @ ?v"
    unfolding make_prompt_def by (simp only: append_assoc append_Cons append_Nil)
  have "?v \<noteq> []" "hd ?v \<noteq> CHR ''u''" by simp_all
  from search_skip[OF no_Qu_prompt this, of None] obtain p' where
    "search_from False question_re None ((PARSE_SYSTEM_PROMPT @ [nl, nl]) @ ?v)
      = search_from False question_re p' ?v" by blast
  moreover have "search_from False question_re p' ?v
      = Some [(1, takeWhile (\<lambda>c. c \<noteq> dq) q)]"
    unfolding t by (rule question_found[OF u])
  ultimately show ?thesis unfolding re_search_def mp by (rule trans)
qed

lemma group_single: "group [(1, u)] 1 = u"
  by (simp add: group_def)

lemma generate_prompt:
  assumes "q \<noteq> []" and "hd q \<noteq> dq"
  shows "generate (make_prompt q) =
         (let question = lower (takeWhile (\<lambda>c. c \<noteq> dq) q)
          in first_match (patterns question (first_name_in COURSE_NAME_MAP question)) question)"
  unfolding generate_def prompt_question[OF assms] option.case group_single Let_def ..

lemma first_match_fallback:
  "list_all (\<lambda>pat. re_search True (fst pat) q = None) ps \<Longrightarrow>
   first_match ps q =
     \<lparr>r_query_type = ''SEARCH_COURSES'', r_parameters = [(''query'', VStr q)],
      r_confidence = 1 / 2\<rparr>"
  by (induction ps) simp_all

lemma search_courses_name: "query_type_of_name ''SEARCH_COURSES'' = Some SEARCH_COURSES"
  by (simp add: query_type_of_name_def all_query_types_def)

lemma empty_question_search:
  "re_search False question_re (make_prompt []) = None"
proof -
  let ?v = "''Question: '' @ dq # [] @ dq # [nl, nl] @ ''Respond with only the JSON object, no additional text.''"
  have mp: "make_prompt [] = (PARSE_SYSTEM_PROMPT @ [nl, nl]) @ ?v"
    unfolding make_prompt_def by (simp only: append_assoc append_Cons append_Nil)
  have "?v \<noteq> []" "hd ?v \<noteq> CHR ''u''" by simp_all
  from search_skip[OF no_Qu_prompt this, of None] obtain p' where
    "search_from False question_re None ((PARSE_SYSTEM_PROMPT @ [nl, nl]) @ ?v)
      = search_from False question_re p' ?v" by blast
  moreover have "search_from False question_re p' ?v = None"
    by (simp add: question_re_def seq_def lit_def dq_def nl_def is_space_def many1_def)
  ultimately show ?thesis unfolding re_search_def mp by (rule trans)
qed

lemma parse_empty:
  "parse_question [] =
     \<lparr>original_question = [], parsed_type = SEARCH_COURSES,
      parameters = [(''query'', VStr [])], confidence = 3 / 10\<rparr>"
  by (simp add: parse_question_def generate_def empty_question_search search_courses_name)

lemma is_word_lower: "is_word c \<Longrightarrow> is_word (lower_char c)"
  unfolding is_word_def is_alpha_def is_digit_def Let_def
  apply (cases "65 \<le> (of_char c :: nat) \<and> (of_char c :: nat) \<le> 90")
   apply (simp add: lower_char_def Let_def)
  apply (simp add: lower_char_def Let_def)
  done

lemma is_digit_lower: "is_digit c \<Longrightarrow> is_digit (lower_char c)"
  by (auto simp: is_digit_def lower_char_def Let_def)

lemma word_not_space: "is_word c \<Longrightarrow> \<not> is_space c"
  by (auto simp: is_word_def is_alpha_def is_digit_def is_space_def Let_def)

lemma word_not_dq: "is_word c \<Longrightarrow> c \<noteq> dq"
  by (auto simp: is_word_def is_alpha_def is_digit_def dq_def Let_def)

lemma token_lower: "is_course_token X \<Longrightarrow> is_course_token (lower X)"
  by (cases X rule: rev_cases)
     (auto simp: is_course_token_def lower_def list_all_iff is_word_lower is_digit_lower)

lemma token_no_space: "is_course_token X \<Longrightarrow> \<forall>c \<in> set X. \<not> is_space c"
  by (auto simp: is_course_token_def list_all_iff word_not_space)

lemma token_no_dq: "is_course_token X \<Longrightarrow> dq \<notin> set X"
  by (auto simp: is_course_token_def list_all_iff dest: word_not_dq)

lemma many0_member:
  "\<forall>c \<in> set u. in_cls C c \<Longrightarrow> (lastp p u, t) \<in> set (many0 C (p, u @ t))"
proof (induction u arbitrary: p)
  case Nil
  then show ?case by (cases t) (simp_all add: lastp_def)
next
  case (Cons a u)
  from Cons.IH[of "Some a"] Cons.prems
  have "(lastp (Some a) u, t) \<in> set (many0 C (Some a, u @ t))" by simp
  moreover have "lastp (Some a) u = lastp p (a # u)" by (simp add: lastp_def)
  ultimately show ?case using Cons.prems by simp
qed

text \<open>A course token is matched by \<open>(\w+\d+)\<close>.\<close>

lemma token_matches:
  assumes "is_course_token Y"
  shows "rmatch ic (code_group i) (p, Y) k \<noteq> []"
proof -
  from assms have "Y \<noteq> []" by (auto simp: is_course_token_def)
  then obtain u d where Y: "Y = u @ [d]" by (cases Y rule: rev_cases) auto
  from assms Y have u: "u \<noteq> []" "\<forall>c \<in> set u. is_word c" and d: "is_digit d"
    by (auto simp: is_course_token_def list_all_iff)
  obtain a u' where ua: "u = a # u'" using u(1) by (cases u) auto
  have "(lastp (Some a) u', [d]) \<in> set (many0 Word (Some a, u' @ [d]))"
    using u(2) ua by (intro many0_member) simp
  then have m: "(lastp (Some a) u', [d]) \<in> set (many1 Word (p, Y))"
    using u(2) ua Y by (simp add: many1_def)
  have "rmatch ic (Plus Digit) (lastp (Some a) u', [d]) k \<noteq> []"
    using d by (simp add: many1_def)
  with m have "rmatch ic (Cat (Plus Word) (Plus Digit)) (p, Y) k \<noteq> []"
    by (auto simp: image_iff intro!: bexI[of _ "(lastp (Some a) u', [d])"])
  then show ?thesis by (simp add: code_group_def)
qed

lemma many0_stop: "s \<noteq> [] \<Longrightarrow> \<not> in_cls C (hd s) \<Longrightarrow> many0 C (p, s) = [(p, s)]"
  by (cases s) simp_all

lemmas pattern_unfold = patterns_def re_search_def seq_def lit_def ws_def opt_s_def code_group_def
      faculty_y_ies_def many1_def lower_char_def is_space_def

lemma earlier_patterns_fail:
  assumes "\<forall>c \<in> set Y. \<not> is_space c"
  shows "re_search True (fst (patterns q rc ! 0)) (''all prerequisites for '' @ Y) = None"
    and "re_search True (fst (patterns q rc ! 1)) (''all prerequisites for '' @ Y) = None"
    and "re_search True (fst (patterns q rc ! 2)) (''all prerequisites for '' @ Y) = None"
    and "re_search True (fst (patterns q rc ! 3)) (''all prerequisites for '' @ Y) = None"
  using assms
  by (simp_all add: pattern_unfold must_space_search_None)

lemma all_pattern_matches:
  assumes "is_course_token Y"
  shows "\<exists>m. re_search True (fst (patterns q rc ! 4)) (''all prerequisites for '' @ Y) = Some m"
proof -
  from token_matches[OF assms, of True "Suc 0" "Some CHR '' ''" "[]"] obtain m rest where
    m: "rmatch True (code_group (Suc 0)) (Some CHR '' '', Y) [] = m # rest"
    by (cases "rmatch True (code_group (Suc 0)) (Some CHR '' '', Y) []") auto
  have Y: "Y \<noteq> []" "\<not> in_cls Space (hd Y)"
    using assms by (cases Y; auto simp: is_course_token_def word_not_space)+
  have st: "many0 Space (Some CHR '' '', Y) = [(Some CHR '' '', Y)]"
    by (rule many0_stop[OF Y])
  show ?thesis
    by (simp add: patterns_def re_search_def seq_def lit_def ws_def opt_s_def
      many1_def lower_char_def is_space_def st m)
qed

lemma first_match_hit:
  "n < length ps \<Longrightarrow> (\<forall>i<n. re_search True (fst (ps ! i)) q = None) \<Longrightarrow>
   re_search True (fst (ps ! n)) q = Some m \<Longrightarrow>
   first_match ps q =
     \<lparr>r_query_type = fst (snd (ps ! n)), r_parameters = snd (snd (ps ! n)) m,
      r_confidence = 17 / 20\<rparr>"
proof (induction ps arbitrary: n)
  case Nil
  then show ?case by simp
next
  case (Cons a ps)
  show ?case
  proof (cases n)
    case 0
    with Cons.prems show ?thesis by simp
  next
    case (Suc k)
    with Cons.prems have a: "re_search True (fst a) q = None" by auto
    from Cons.prems Suc have "k < length ps" "\<forall>i<k. re_search True (fst (ps ! i)) q = None"
      "re_search True (fst (ps ! k)) q = Some m" by auto
    from Cons.IH[OF this] a Suc show ?thesis by simp
  qed
qed

lemma direct_pattern_matches:
  assumes "is_course_token Y"
  shows "\<exists>m. re_search True (fst (patterns q rc ! 9)) (''all prerequisites for '' @ Y) = Some m"
proof -
  from token_matches[OF assms, of True "Suc 0" "Some CHR '' ''" "[]"] obtain m rest where
    m: "rmatch True (code_group (Suc 0)) (Some CHR '' '', Y) [] = m # rest"
    by (cases "rmatch True (code_group (Suc 0)) (Some CHR '' '', Y) []") auto
  have Y: "Y \<noteq> []" "\<not> in_cls Space (hd Y)"
    using assms by (cases Y; auto simp: is_course_token_def word_not_space)+
  have st: "many0 Space (Some CHR '' '', Y) = [(Some CHR '' '', Y)]"
    by (rule many0_stop[OF Y])
  show ?thesis
    by (simp add: patterns_def re_search_def seq_def lit_def ws_def opt_s_def
      many1_def lower_char_def is_space_def st m)
qed

lemma pattern_types:
  "length (patterns q rc) = 39"
  "fst (snd (patterns q rc ! 4)) = ''GET_ALL_PREREQUISITES''"
  "fst (snd (patterns q rc ! 9)) = ''GET_PREREQUISITES''"
  by (simp_all add: patterns_def)

lemma all_prerequisites_name:
  "query_type_of_name ''GET_ALL_PREREQUISITES'' = Some GET_ALL_PREREQUISITES"
  by (simp add: query_type_of_name_def all_query_types_def)

lemma lower_all_prerequisites_for:
  "lower (''all prerequisites for '' @ X) = ''all prerequisites for '' @ lower X"
  by (simp add: lower_def lower_char_def)


lemma of_char_lower:
  "(of_char (lower_char c) :: nat) =
     (if 65 \<le> (of_char c :: nat) \<and> (of_char c :: nat) \<le> 90 then of_char c + 32 else of_char c)"
  by (simp add: lower_char_def Let_def)

lemma lower_char_eq:
  "(lower_char x = lower_char c) = ((of_char (lower_char x) :: nat) = of_char (lower_char c))"
  by simp


lemmas no_match_unfold = no_pattern_matches_def patterns_def re_search_def seq_def lit_def ws_def
  opt_s_def code_group_def faculty_y_ies_def many1_def is_space_def title_opt_def name_group_def
  word_group_def is_word_def is_alpha_def is_digit_def nl_def sq_def lower_char_eq of_char_lower

section \<open>Claims about the graph store\<close>

lemma build_sample_doc: "build_graph sample_doc = sample_graph"
  by code_simp

text \<open>
  Claim C8. The breadth-first traversal of \<open>get_all_prerequisites\<close> returns for
  every graph and every start id, also when the prerequisite edges contain a
  cycle: each pass of the loop lowers the number of unvisited edge targets plus
  the length of the queue.
\<close>

theorem get_all_prerequisites_terminates:
  "\<exists>r. get_all_prerequisites g course_id = Some r"
  using bfs_loop_terminates[of g "[]" "[course_id]"]
  by (auto simp: get_all_prerequisites_def)

theorem get_all_prerequisites_terminates_witness:
  "\<exists>r. get_all_prerequisites (build_graph cycle_doc) ''cs101'' = Some r"
  by (rule get_all_prerequisites_terminates)

text \<open>
  Claim C7. The ids returned by \<open>get_prerequisites\<close> are among the ids returned
  by \<open>get_all_prerequisites\<close>, for every graph and every id.
\<close>

theorem direct_subset_all_prerequisites:
  "\<exists>r. get_all_prerequisites g c = Some r \<and>
       set (map nid (get_prerequisites g c)) \<subseteq> set (map nid r)"
proof -
  from get_all_prerequisites_reach[of g c] obtain r where
    r: "get_all_prerequisites g c = Some r"
       "set (map nid r) = {v. (c, v) \<in> (prereq_rel g)\<^sup>+ \<and> has_node g v}"
    by blast
  have "set (map nid (get_prerequisites g c)) \<subseteq> set (map nid r)"
    unfolding r(2) ids_get_prerequisites by (auto simp: prereq_rel_def)
  with r(1) show ?thesis by blast
qed

theorem direct_subset_all_prerequisites_witness:
  "\<exists>r. get_all_prerequisites (build_graph sample_doc) ''math301'' = Some r \<and>
       set (map nid (get_prerequisites (build_graph sample_doc) ''math301''))
         \<subseteq> set (map nid r)"
  by (rule direct_subset_all_prerequisites)

text \<open>
  Claim C2, as stated: the result of \<open>get_all_prerequisites\<close> never contains the
  course itself. The visited set of the source starts empty (\<open>all_prereqs = set()\<close>),
  so on two courses that require each other the start course is discovered
  through the cycle and returned.
\<close>

theorem all_prerequisites_contains_start_on_cycle:
  "map_option (map nid) (get_all_prerequisites (build_graph cycle_doc) ''cs101'')
     = Some [''cs201'', ''cs101'']
   \<and> ''cs101'' \<in> set [''cs201'', ''cs101'']"
  by code_simp

text \<open>
  Claim C2, amended: the visited set starts empty, and the returned ids are
  exactly the nodes reachable from the course along one or more prerequisite
  edges; so the result contains the course itself exactly when the course lies
  on a prerequisite cycle.
\<close>

theorem all_prerequisites_reachable_set:
  "get_all_prerequisites g c = map_option (List.map_filter (get_node g)) (bfs_loop g [] [c]) \<and>
   (\<exists>r. get_all_prerequisites g c = Some r \<and>
       set (map nid r) = {v. (c, v) \<in> (prereq_rel g)\<^sup>+ \<and> has_node g v} \<and>
       (c \<in> set (map nid r)) = ((c, c) \<in> (prereq_rel g)\<^sup>+ \<and> has_node g c))"
  using get_all_prerequisites_reach[of g c] by (auto simp: get_all_prerequisites_def)

theorem all_prerequisites_reachable_set_witness:
  "\<exists>r. get_all_prerequisites (build_graph sample_doc) ''math301'' = Some r \<and>
       set (map nid r) =
         {v. (''math301'', v) \<in> (prereq_rel (build_graph sample_doc))\<^sup>+ \<and>
             has_node (build_graph sample_doc) v} \<and>
       (''math301'' \<in> set (map nid r)) =
         ((''math301'', ''math301'') \<in> (prereq_rel (build_graph sample_doc))\<^sup>+ \<and>
          has_node (build_graph sample_doc) ''math301'')"
  using all_prerequisites_reachable_set[of "build_graph sample_doc" "''math301''"] by blast

text \<open>
  Claim C3. \<open>can_take_course\<close> answers eligible exactly when every direct
  prerequisite id is among the completed ids, and the missing list is the list
  of direct prerequisite ids that are not completed; nothing else is consulted,
  so a transitive prerequisite need not be completed.
\<close>

theorem can_take_course_direct_only:
  "fst (can_take_course g c completed)
     = (set (map nid (get_prerequisites g c)) \<subseteq> set completed) \<and>
   snd (can_take_course g c completed)
     = filter (\<lambda>i. i \<notin> set completed) (map nid (get_prerequisites g c))"
  by (auto simp: can_take_course_def Let_def filter_empty_conv)

text \<open>In the sample, \<open>math301\<close> requires \<open>cs201\<close>, which requires \<open>cs101\<close>; with
  only \<open>cs201\<close> completed the course can be taken.\<close>

theorem can_take_course_direct_only_witness:
  "can_take_course (build_graph sample_doc) ''math301'' [''cs201''] = (True, []) \<and>
   map_option (map nid) (get_all_prerequisites (build_graph sample_doc) ''math301'')
     = Some [''cs201'', ''cs101''] \<and>
   can_take_course (build_graph sample_doc) ''math301'' [''cs101''] = (False, [''cs201''])"
proof -
  have ids: "map nid (get_prerequisites sample_graph ''math301'') = [''cs201'']"
    by code_simp
  have all: "map_option (map nid) (get_all_prerequisites sample_graph ''math301'')
     = Some [''cs201'', ''cs101'']"
    by code_simp
  from can_take_course_direct_only[of sample_graph "''math301''" "[''cs201'']"]
       can_take_course_direct_only[of sample_graph "''math301''" "[''cs101'']"]
  show ?thesis
    by (simp add: build_sample_doc ids all prod_eq_iff)
qed

text \<open>
  Claim C9, as stated: for an id that is not in the graph the edge traversals
  raise. They do not: the edge views of the graph library take an argument that
  is not a node as a container of nodes, so an absent id yields no edges and
  the three operations return the empty list.
\<close>

theorem absent_id_returns_empty:
  "\<not> has_node (build_graph sample_doc) ''zz'' \<and>
   get_prerequisites (build_graph sample_doc) ''zz'' = [] \<and>
   get_all_prerequisites (build_graph sample_doc) ''zz'' = Some [] \<and>
   get_courses_requiring (build_graph sample_doc) ''zz'' = []"
  unfolding build_sample_doc by code_simp

text \<open>
  Claim C9, amended: for an id that is not in the graph, and none of whose
  characters is a node id, \<open>get_node\<close> returns absent and \<open>get_prerequisites\<close>,
  \<open>get_all_prerequisites\<close> and \<open>get_courses_requiring\<close> return the empty list;
  no exception is raised.
\<close>

theorem absent_id_no_exception:
  assumes "\<not> has_node g n" and "\<forall>c \<in> set n. \<not> has_node g [c]"
  shows "get_node g n = None \<and> get_prerequisites g n = [] \<and>
         get_all_prerequisites g n = Some [] \<and> get_courses_requiring g n = []"
proof -
  have o: "out_edges g n = []" and i: "in_edges g n = []"
    using assms by (simp_all add: out_edges_absent in_edges_absent)
  have "bfs_loop g [] [n] = Some []"
    by (simp add: bfs_loop_Cons bfs_loop_Nil o)
  then show ?thesis using assms(1)
    by (simp add: get_node_def has_node_def get_prerequisites_def get_courses_requiring_def
        get_all_prerequisites_def o i List.map_filter_def)
qed

theorem absent_id_no_exception_witness:
  "get_node (build_graph sample_doc) ''cs999'' = None \<and>
   get_prerequisites (build_graph sample_doc) ''cs999'' = [] \<and>
   get_all_prerequisites (build_graph sample_doc) ''cs999'' = Some [] \<and>
   get_courses_requiring (build_graph sample_doc) ''cs999'' = []"
proof -
  have a: "\<not> has_node (build_graph sample_doc) ''cs999''"
    unfolding build_sample_doc by code_simp
  have b: "\<forall>c \<in> set ''cs999''. \<not> has_node (build_graph sample_doc) [c]"
    unfolding build_sample_doc by code_simp
  from absent_id_no_exception[OF a b] show ?thesis .
qed

text \<open>
  Claim C10. The graph holds at most one edge per ordered pair of nodes and an
  edge has one relation tag, the one assigned last. When a department names as
  its head a faculty member whose own department field is that department
  (node ids unique), the \<open>heads\<close> assignment overwrites the \<open>belongs_to\<close> tag of
  that edge: after loading, the edge is not a \<open>belongs_to\<close> edge,
  \<open>get_faculty_department\<close> of the head is absent and
  \<open>get_faculty_by_department\<close> of the department omits the head.
\<close>

theorem head_edge_replaces_belongs_to:
  assumes "unique_ids doc"
    and "d \<in> set (departments doc)" and "d_faculty_head d = Some h"
    and "f \<in> set (faculty doc)" and "f_id f = h" and "f_department f = d_id d"
  shows "distinct (map fst (edges (build_graph doc))) \<and>
         rel_of (load_head (load_faculty g0 f) d) h (d_id d) = Some heads \<and>
         rel_of (build_graph doc) h (d_id d) \<noteq> Some belongs_to \<and>
         get_faculty_department (build_graph doc) h = None \<and>
         h \<notin> set (map nid (get_faculty_by_department (build_graph doc) (d_id d)))"
proof -
  let ?g = "build_graph doc"
  have dist: "distinct (map fst (edges ?g))" by (rule distinct_edges_build)
  have last_wins: "rel_of (load_head (load_faculty g0 f) d) h (d_id d) = Some heads"
    by (simp add: load_head_def assms(3) rel_of_add_edge)
  have not_course: "h \<notin> set (map c_id (courses doc))"
    using assms(1,4,5) by (auto simp: unique_ids_def)
  have only: "\<And>f'. f' \<in> set (faculty doc) \<Longrightarrow> f_id f' = h \<Longrightarrow> f' = f"
    using assms(1,4,5) by (auto simp: unique_ids_def distinct_map inj_on_def)
  have no_belongs: "rel_of ?g h v \<noteq> Some belongs_to" for v
  proof
    assume "rel_of ?g h v = Some belongs_to"
    from belongs_to_origin[OF this] not_course obtain f' where
      f': "f' \<in> set (faculty doc)" "h = f_id f'" "v = f_department f'"
      and nh: "\<forall>d \<in> set (departments doc). \<not> (d_faculty_head d = Some h \<and> d_id d = v)"
      by blast
    from only[OF f'(1)] f'(2) have "f' = f" by simp
    with f'(3) assms(6) have "v = d_id d" by simp
    with nh assms(2,3) show False by blast
  qed
  have no_edge: "((h, v), belongs_to) \<notin> set (edges ?g)" for v
    using edge_rel_of[OF dist, of h v belongs_to] no_belongs[of v] by blast
  have "filter (\<lambda>e. snd e = belongs_to) (out_edges ?g h) = []"
    using no_edge
    by (auto simp: out_edges_node[OF has_node_build_head[OF assms(2,3)]] filter_empty_conv)
  then have fd: "get_faculty_department ?g h = None"
    by (simp add: get_faculty_department_def)
  have "h \<notin> set (map nid (get_faculty_by_department ?g (d_id d)))"
  proof
    assume "h \<in> set (map nid (get_faculty_by_department ?g (d_id d)))"
    then obtain e where e: "e \<in> set (in_edges ?g (d_id d))" "snd e = belongs_to"
        "get_node ?g (fst (fst e)) \<noteq> None" "nid (the (get_node ?g (fst (fst e)))) = h"
      by (auto simp: get_faculty_by_department_def List.map_filter_def
          split: if_splits option.splits)
    then have "fst (fst e) = h" using nid_get_node[of ?g "fst (fst e)"] by auto
    moreover have "e \<in> set (edges ?g) \<and> snd (fst e) = d_id d"
      using e(1) by (simp add: in_edges_node[OF has_node_build_department[OF assms(2)]])
    ultimately have "((h, d_id d), belongs_to) \<in> set (edges ?g)"
      using e(2) by (metis prod.collapse)
    with no_edge show False by blast
  qed
  with dist last_wins fd no_belongs show ?thesis by blast
qed

text \<open>In the sample, Smith heads the department she belongs to; Lee remains the
  only faculty member listed for it.\<close>

theorem head_edge_replaces_belongs_to_witness:
  "rel_of (build_graph sample_doc) ''smith'' ''dept_cs'' \<noteq> Some belongs_to \<and>
   rel_of (build_graph sample_doc) ''smith'' ''dept_cs'' = Some heads \<and>
   get_faculty_department (build_graph sample_doc) ''smith'' = None \<and>
   ''smith'' \<notin> set (map nid (get_faculty_by_department (build_graph sample_doc) ''dept_cs'')) \<and>
   map nid (get_faculty_by_department (build_graph sample_doc) ''dept_cs'') = [''lee'']"
proof -
  have u: "unique_ids sample_doc" by code_simp
  have d: "dept_cs \<in> set (departments sample_doc)" by (simp add: sample_doc_def)
  have h: "d_faculty_head dept_cs = Some ''smith''" by (simp add: dept_cs_def)
  have f: "fac_smith \<in> set (faculty sample_doc)" by (simp add: sample_doc_def)
  have i: "f_id fac_smith = ''smith''" by (simp add: fac_smith_def)
  have e: "f_department fac_smith = d_id dept_cs" by (simp add: fac_smith_def dept_cs_def)
  have r: "rel_of sample_graph ''smith'' ''dept_cs'' = Some heads" by code_simp
  have l: "map nid (get_faculty_by_department sample_graph ''dept_cs'') = [''lee'']"
    by code_simp
  have k: "d_id dept_cs = ''dept_cs''" by (simp add: dept_cs_def)
  from head_edge_replaces_belongs_to[OF u d h f i e] r l show ?thesis
    by (simp add: build_sample_doc k)
qed

section \<open>Claims about the reasoner\<close>

text \<open>
  Claim C5. \<open>execute_query\<close> has no exceptional outcome: for a query type with
  no registered rule it returns a failed result with a message naming the type;
  when the rule raises, it returns a failed result carrying the message of the
  exception; when the rule returns, it returns the rule's result.
\<close>

theorem execute_query_never_raises:
  "(rules self qt = None \<longrightarrow>
      execute_query self qt params =
        Some \<lparr>query_type = qt, answer = None, success = False, reasoning_chain = [],
              error_message = Some (''Unknown query type: QueryType.'' @ query_type_name qt)\<rparr>) \<and>
   (\<forall>rule e. rules self qt = Some rule \<longrightarrow> rule params = Some (Inl e) \<longrightarrow>
      execute_query self qt params =
        Some \<lparr>query_type = qt, answer = None, success = False, reasoning_chain = [],
              error_message = Some (exn_message e)\<rparr>) \<and>
   (\<forall>rule r. rules self qt = Some rule \<longrightarrow> rule params = Some (Inr r) \<longrightarrow>
      execute_query self qt params = Some r)"
  by (simp add: execute_query_def)

text \<open>On the sample: a type that is not registered, and a comparison without
  parameters, whose course lookup raises \<open>AttributeError\<close> on \<open>None.upper()\<close>.\<close>

theorem execute_query_never_raises_witness:
  "execute_query (compare_reasoner (build_graph sample_doc)) SEARCH_COURSES [] =
     Some \<lparr>query_type = SEARCH_COURSES, answer = None, success = False, reasoning_chain = [],
           error_message = Some ''Unknown query type: QueryType.SEARCH_COURSES''\<rparr> \<and>
   execute_query (compare_reasoner (build_graph sample_doc)) COMPARE_COURSES [] =
     Some \<lparr>query_type = COMPARE_COURSES, answer = None, success = False, reasoning_chain = [],
           error_message =
             Some ([sq] @ ''NoneType'' @ [sq] @ '' object has no attribute '' @ [sq]
                   @ ''upper'' @ [sq])\<rparr>"
proof -
  let ?r = "compare_reasoner (build_graph sample_doc)"
  let ?e = "AttributeError ([sq] @ ''NoneType'' @ [sq] @ '' object has no attribute '' @ [sq]
                   @ ''upper'' @ [sq])"
  have unreg: "rules ?r SEARCH_COURSES = None"
    by (simp add: compare_reasoner_def)
  have reg: "rules ?r COMPARE_COURSES = Some (rule_compare_courses (build_graph sample_doc))"
    by (simp add: compare_reasoner_def)
  have raises: "rule_compare_courses (build_graph sample_doc) [] = Some (Inl ?e)"
    unfolding build_sample_doc by code_simp
  from execute_query_never_raises[of ?r SEARCH_COURSES "[]"] unreg
  have a: "execute_query ?r SEARCH_COURSES [] =
     Some \<lparr>query_type = SEARCH_COURSES, answer = None, success = False, reasoning_chain = [],
           error_message = Some ''Unknown query type: QueryType.SEARCH_COURSES''\<rparr>"
    by simp
  from execute_query_never_raises[of ?r COMPARE_COURSES "[]"] reg raises
  have b: "execute_query ?r COMPARE_COURSES [] =
     Some \<lparr>query_type = COMPARE_COURSES, answer = None, success = False, reasoning_chain = [],
           error_message = Some (exn_message ?e)\<rparr>"
    by blast
  from a b show ?thesis by simp
qed

text \<open>
  Claim C1 on the code. The comparison rule computes \<open>same_department\<close> from the
  attribute \<open>department\<close> of the two course nodes. Loading stores no such
  attribute (the department of a course is an edge), so both lookups are absent
  and the field is true for two courses of different departments:
  \<open>CS101\<close> belongs to \<open>dept_cs\<close> and \<open>MATH301\<close> to \<open>dept_math\<close>.
  The fields \<open>same_level\<close> and \<open>credits_diff\<close> are as claimed.
\<close>

theorem compare_courses_same_department_wrong:
  "map_option same_department
     (compare_answer
        (execute_query (compare_reasoner (build_graph sample_doc)) COMPARE_COURSES
           [(''course1'', VStr ''CS101''), (''course2'', VStr ''MATH301'')])) = Some True \<and>
   map_option nid (get_course_department (build_graph sample_doc) ''cs101'') = Some ''dept_cs'' \<and>
   map_option nid (get_course_department (build_graph sample_doc) ''math301'')
     = Some ''dept_math''"
  unfolding build_sample_doc by code_simp

section \<open>Claims about the parser\<close>

text \<open>
  Claim C4, as stated: when no pattern matches, the search parameter is the full
  question text and the confidence is 0.5. The provider lower-cases the
  question before matching and passes the lower-cased text on, so for the
  question \<open>Hello\<close> the search parameter is \<open>hello\<close>; and for the empty
  question no text is extracted from the prompt and the confidence is 0.3.
\<close>

theorem fallback_query_is_lower_cased:
  "no_pattern_matches ''Hello'' \<and>
   parse_question ''Hello'' =
     \<lparr>original_question = ''Hello'', parsed_type = SEARCH_COURSES,
      parameters = [(''query'', VStr ''hello'')], confidence = 1 / 2\<rparr> \<and>
   ''hello'' \<noteq> ''Hello'' \<and>
   parse_question [] =
     \<lparr>original_question = [], parsed_type = SEARCH_COURSES,
      parameters = [(''query'', VStr [])], confidence = 3 / 10\<rparr>"
proof -
  have a: "no_pattern_matches ''Hello''"
    by (simp add: no_match_unfold)
  have b: "no_pattern_matches ''hello''"
    by (simp add: no_match_unfold)
  have ne: "''Hello'' \<noteq> []" and hd: "hd ''Hello'' \<noteq> dq" by (simp_all add: dq_def)
  have lw: "lower (takeWhile (\<lambda>c. c \<noteq> dq) ''Hello'') = ''hello''"
    by code_simp
  have "generate (make_prompt ''Hello'') =
     \<lparr>r_query_type = ''SEARCH_COURSES'', r_parameters = [(''query'', VStr ''hello'')],
      r_confidence = 1 / 2\<rparr>"
    unfolding generate_prompt[OF ne hd] lw Let_def
    using b unfolding no_pattern_matches_def by (rule first_match_fallback)
  then have c: "parse_question ''Hello'' =
     \<lparr>original_question = ''Hello'', parsed_type = SEARCH_COURSES,
      parameters = [(''query'', VStr ''hello'')], confidence = 1 / 2\<rparr>"
    unfolding parse_question_def Let_def by (simp add: search_courses_name)
  from a c parse_empty show ?thesis by simp
qed

text \<open>
  Claim C4, amended: for every non-empty question of ASCII characters that
  contains no double quote, when no pattern matches the question (the patterns
  are tried on the lower-cased text), parsing yields a \<open>SEARCH_COURSES\<close> query
  with confidence 0.5 whose search parameter is the lower-cased question text;
  the empty question yields a \<open>SEARCH_COURSES\<close> query with confidence 0.3 and an
  empty search parameter. The parser returns a structured query in every case.
\<close>

theorem parse_question_fallback:
  assumes "question \<noteq> []" and "is_ascii question" and "dq \<notin> set question"
    and "no_pattern_matches (lower question)"
  shows "parse_question question =
           \<lparr>original_question = question, parsed_type = SEARCH_COURSES,
            parameters = [(''query'', VStr (lower question))], confidence = 1 / 2\<rparr> \<and>
         parse_question [] =
           \<lparr>original_question = [], parsed_type = SEARCH_COURSES,
            parameters = [(''query'', VStr [])], confidence = 3 / 10\<rparr>"
proof -
  from assms(1,3) have hd: "hd question \<noteq> dq" by (cases question) auto
  from assms(3) have tw: "takeWhile (\<lambda>c. c \<noteq> dq) question = question"
    by (simp only: takeWhile_eq_all_conv) blast
  have "generate (make_prompt question) =
     \<lparr>r_query_type = ''SEARCH_COURSES'', r_parameters = [(''query'', VStr (lower question))],
      r_confidence = 1 / 2\<rparr>"
    unfolding generate_prompt[OF assms(1) hd] tw Let_def
    using assms(4) unfolding no_pattern_matches_def by (rule first_match_fallback)
  then have "parse_question question =
           \<lparr>original_question = question, parsed_type = SEARCH_COURSES,
            parameters = [(''query'', VStr (lower question))], confidence = 1 / 2\<rparr>"
    unfolding parse_question_def Let_def by (simp add: search_courses_name)
  with parse_empty show ?thesis by simp
qed

text \<open>The question \<open>Hello World\<close>: the search text is \<open>hello world\<close>.\<close>

theorem parse_question_fallback_witness:
  "parse_question ''Hello World'' =
     \<lparr>original_question = ''Hello World'', parsed_type = SEARCH_COURSES,
      parameters = [(''query'', VStr ''hello world'')], confidence = 1 / 2\<rparr>"
proof -
  have ne: "''Hello World'' \<noteq> []" by simp
  have asc: "is_ascii ''Hello World''" by (simp add: is_ascii_def)
  have nq: "dq \<notin> set ''Hello World''" by (simp add: dq_def)
  have lw: "lower ''Hello World'' = ''hello world''"
    by code_simp
  have "no_pattern_matches ''hello world''"
    by (simp add: no_match_unfold)
  then have nm: "no_pattern_matches (lower ''Hello World'')"
    by (simp only: lw)
  from parse_question_fallback[OF ne asc nq nm] show ?thesis
    by (simp only: lw)
qed


text \<open>
  Claim C6. For every course token \<open>X\<close>, the text \<open>all prerequisites for X\<close> is
  parsed to the intent \<open>GET_ALL_PREREQUISITES\<close> (with confidence 0.85): the four
  rules before the rule for all prerequisites do not match the text, that rule
  (position 4 of the list) does, and so it answers before the rule for direct
  prerequisites (position 9), which matches the text as well.
\<close>

theorem all_prerequisites_text_resolves_to_transitive:
  assumes "is_course_token X"
  shows "parsed_type (parse_question (''all prerequisites for '' @ X)) = GET_ALL_PREREQUISITES \<and>
         confidence (parse_question (''all prerequisites for '' @ X)) = 17 / 20 \<and>
         (let question = lower (''all prerequisites for '' @ X);
              rules = patterns question (first_name_in COURSE_NAME_MAP question)
          in fst (snd (rules ! 4)) = ''GET_ALL_PREREQUISITES'' \<and>
             fst (snd (rules ! 9)) = ''GET_PREREQUISITES'' \<and>
             (\<exists>m. re_search True (fst (rules ! 4)) question = Some m) \<and>
             (\<exists>m. re_search True (fst (rules ! 9)) question = Some m))"
proof -
  let ?text = "''all prerequisites for '' @ X"
  let ?Y = "lower X"
  let ?Q = "''all prerequisites for '' @ ?Y"
  let ?rules = "patterns ?Q (first_name_in COURSE_NAME_MAP ?Q)"
  have Y: "is_course_token ?Y" by (rule token_lower[OF assms])
  have ne: "?text \<noteq> []" and hd: "hd ?text \<noteq> dq" by (simp_all add: dq_def)
  have "dq \<notin> set ?text" using token_no_dq[OF assms] by (simp add: dq_def)
  then have tw: "takeWhile (\<lambda>c. c \<noteq> dq) ?text = ?text"
    by (simp only: takeWhile_eq_all_conv) blast
  have gen: "generate (make_prompt ?text) = first_match ?rules ?Q"
    unfolding generate_prompt[OF ne hd] tw lower_all_prerequisites_for Let_def ..
  from all_pattern_matches[OF Y] obtain m where
    m: "re_search True (fst (?rules ! 4)) ?Q = Some m" by blast
  from direct_pattern_matches[OF Y] obtain m' where
    m': "re_search True (fst (?rules ! 9)) ?Q = Some m'" by blast
  have before: "\<forall>i<4. re_search True (fst (?rules ! i)) ?Q = None"
  proof (intro allI impI)
    fix i :: nat assume "i < 4"
    then consider "i = 0" | "i = 1" | "i = 2" | "i = 3" by linarith
    then show "re_search True (fst (?rules ! i)) ?Q = None"
      using earlier_patterns_fail[OF token_no_space[OF Y]] by cases simp_all
  qed
  have "4 < length ?rules" by (simp add: pattern_types)
  from first_match_hit[OF this before m]
  have fm: "first_match ?rules ?Q =
     \<lparr>r_query_type = ''GET_ALL_PREREQUISITES'', r_parameters = snd (snd (?rules ! 4)) m,
      r_confidence = 17 / 20\<rparr>"
    by (simp only: pattern_types)
  have "parsed_type (parse_question ?text) = GET_ALL_PREREQUISITES"
    and "confidence (parse_question ?text) = 17 / 20"
    unfolding parse_question_def Let_def gen fm
    by (simp_all add: all_prerequisites_name)
  moreover have "fst (snd (?rules ! 4)) = ''GET_ALL_PREREQUISITES''"
    "fst (snd (?rules ! 9)) = ''GET_PREREQUISITES''" by (rule pattern_types)+
  ultimately show ?thesis
    unfolding lower_all_prerequisites_for Let_def using m m' by blast
qed

theorem all_prerequisites_text_resolves_to_transitive_witness:
  "parsed_type (parse_question (''all prerequisites for '' @ ''CS401'')) = GET_ALL_PREREQUISITES \<and>
   confidence (parse_question (''all prerequisites for '' @ ''CS401'')) = 17 / 20"
proof -
  have t: "is_course_token ''CS401''"
    by (simp add: is_course_token_def is_word_def is_alpha_def is_digit_def)
  from all_prerequisites_text_resolves_to_transitive[OF t] show ?thesis by blast
qed

end
